theory Spec2Isabelle
  imports Main "HOL-Library.AList"
begin

section \<open>JavaScript strings and the built-ins the components call\<close>

text \<open>
  A JavaScript string is a sequence of UTF-16 code units. It is modelled as a
  \<^typ>\<open>string\<close>, each \<^typ>\<open>char\<close> standing for the code unit of the same number, so the
  model covers the strings whose code units are below 256 (ASCII and Latin-1).
  \<open>length\<close> is then the JavaScript \<open>.length\<close>.
\<close>

definition is_digit :: "char \<Rightarrow> bool" where
  \<comment> \<open>the class \<open>\d\<close>\<close>
  "is_digit c = (c \<in> set ''0123456789'')"

definition lower_letters :: string where
  "lower_letters = ''abcdefghijklmnopqrstuvwxyz''"

definition upper_letters :: string where
  "upper_letters = ''ABCDEFGHIJKLMNOPQRSTUVWXYZ''"

definition is_word :: "char \<Rightarrow> bool" where
  \<comment> \<open>the class \<open>\w\<close>\<close>
  "is_word c = (c \<in> set lower_letters \<or> c \<in> set upper_letters \<or> is_digit c \<or> c = CHR ''_'')"

definition is_space :: "char \<Rightarrow> bool" where
  \<comment> \<open>the class \<open>\s\<close>, also what \<open>trim\<close> and \<open>parseInt\<close> strip: tab, line feed,
      vertical tab, form feed, carriage return, space and no-break space\<close>
  "is_space c = (c \<in> set [CHR 0x09, CHR 0x0A, CHR 0x0B, CHR 0x0C, CHR 0x0D, CHR 0x20, CHR 0xA0])"

definition latin1_upper :: string where
  \<comment> \<open>the capital letters of Latin-1, U+00C0 to U+00DE without the sign U+00D7\<close>
  "latin1_upper =
     [CHR 0xC0, CHR 0xC1, CHR 0xC2, CHR 0xC3, CHR 0xC4, CHR 0xC5, CHR 0xC6, CHR 0xC7,
      CHR 0xC8, CHR 0xC9, CHR 0xCA, CHR 0xCB, CHR 0xCC, CHR 0xCD, CHR 0xCE, CHR 0xCF,
      CHR 0xD0, CHR 0xD1, CHR 0xD2, CHR 0xD3, CHR 0xD4, CHR 0xD5, CHR 0xD6,
      CHR 0xD8, CHR 0xD9, CHR 0xDA, CHR 0xDB, CHR 0xDC, CHR 0xDD, CHR 0xDE]"

definition latin1_lower :: string where
  "latin1_lower =
     [CHR 0xE0, CHR 0xE1, CHR 0xE2, CHR 0xE3, CHR 0xE4, CHR 0xE5, CHR 0xE6, CHR 0xE7,
      CHR 0xE8, CHR 0xE9, CHR 0xEA, CHR 0xEB, CHR 0xEC, CHR 0xED, CHR 0xEE, CHR 0xEF,
      CHR 0xF0, CHR 0xF1, CHR 0xF2, CHR 0xF3, CHR 0xF4, CHR 0xF5, CHR 0xF6,
      CHR 0xF8, CHR 0xF9, CHR 0xFA, CHR 0xFB, CHR 0xFC, CHR 0xFD, CHR 0xFE]"

definition toLowerCase_char :: "char \<Rightarrow> char" where
  "toLowerCase_char c =
     (case map_of (zip (upper_letters @ latin1_upper) (lower_letters @ latin1_lower)) c of
        Some l \<Rightarrow> l
      | None \<Rightarrow> c)"

definition toLowerCase :: "string \<Rightarrow> string" where
  \<comment> \<open>\<open>String.prototype.toLowerCase\<close>\<close>
  "toLowerCase s = map toLowerCase_char s"

definition ascii_upper :: "char \<Rightarrow> char" where
  \<comment> \<open>\<open>toUpperCase\<close> of one character of the class \<open>\w\<close>, and the case folding of the
      flag \<open>i\<close> against an ASCII letter of the pattern (a code unit above 127 is never
      folded onto an ASCII one)\<close>
  "ascii_upper c = (case map_of (zip lower_letters upper_letters) c of Some u \<Rightarrow> u | None \<Rightarrow> c)"

definition trim :: "string \<Rightarrow> string" where
  \<comment> \<open>\<open>String.prototype.trim\<close>\<close>
  "trim s = rev (dropWhile is_space (rev (dropWhile is_space s)))"

fun split_on :: "char \<Rightarrow> string \<Rightarrow> string list" where
  \<comment> \<open>\<open>s.split(sep)\<close> for a separator of one character\<close>
  "split_on sep [] = [[]]"
| "split_on sep (c # cs) =
     (if c = sep then [] # split_on sep cs
      else (case split_on sep cs of p # ps \<Rightarrow> (c # p) # ps | [] \<Rightarrow> [[c]]))"

fun replace_first :: "char \<Rightarrow> char \<Rightarrow> string \<Rightarrow> string" where
  \<comment> \<open>\<open>s.replace(a, b)\<close> with a string pattern of one character: the first occurrence only\<close>
  "replace_first a b [] = []"
| "replace_first a b (c # cs) = (if c = a then b # cs else c # replace_first a b cs)"

fun upper_at_boundary :: "bool \<Rightarrow> string \<Rightarrow> string" where
  \<comment> \<open>\<open>s.replace(/\b\w/g, l => l.toUpperCase())\<close>; the flag tells whether the character
      before the position is a word character\<close>
  "upper_at_boundary prev [] = []"
| "upper_at_boundary prev (c # cs) =
     (if is_word c \<and> \<not> prev then ascii_upper c else c) # upper_at_boundary (is_word c) cs"

definition digit_value :: "char \<Rightarrow> nat option" where
  "digit_value c =
     (if is_digit c then Some (of_char c - 48)
      else if c \<in> set lower_letters then Some (of_char c - 87)
      else if c \<in> set upper_letters then Some (of_char c - 55)
      else None)"

definition is_radix_digit :: "nat \<Rightarrow> char \<Rightarrow> bool" where
  "is_radix_digit R c = (case digit_value c of Some d \<Rightarrow> d < R | None \<Rightarrow> False)"

definition to_number :: "nat \<Rightarrow> string \<Rightarrow> nat" where
  "to_number R Z = foldl (\<lambda>a c. a * R + (case digit_value c of Some d \<Rightarrow> d | None \<Rightarrow> 0)) 0 Z"

definition parseInt :: "string \<Rightarrow> int option" where
  \<comment> \<open>\<open>parseInt(s)\<close> with no radix; \<open>None\<close> is \<open>NaN\<close>. The result is the mathematical
      integer: the rounding to a double is monotone and exact up to \<open>2^53\<close>, so the
      comparisons with 1, 255 and 4094 made on it give the same answers.\<close>
  "parseInt s =
     (let S = dropWhile is_space s;
          sign = (if take 1 S = ''-'' then - 1 else 1 :: int);
          S = (if take 1 S = ''+'' \<or> take 1 S = ''-'' then drop 1 S else S);
          hex = (take 2 S = ''0x'' \<or> take 2 S = ''0X'');
          R = (if hex then 16 else 10);
          S = (if hex then drop 2 S else S);
          Z = takeWhile (is_radix_digit R) S
      in if Z = [] then None else Some (sign * int (to_number R Z)))"

subsection \<open>Regular expressions\<close>

datatype re = Fail | Empty | Class "char \<Rightarrow> bool" | Alt re re | Cat re re | Star re

primrec accepts_empty :: "re \<Rightarrow> bool" where
  "accepts_empty Fail = False"
| "accepts_empty Empty = True"
| "accepts_empty (Class P) = False"
| "accepts_empty (Alt r s) = (accepts_empty r \<or> accepts_empty s)"
| "accepts_empty (Cat r s) = (accepts_empty r \<and> accepts_empty s)"
| "accepts_empty (Star r) = True"

primrec after :: "char \<Rightarrow> re \<Rightarrow> re" where
  \<comment> \<open>what is left of the pattern once the character is read\<close>
  "after c Fail = Fail"
| "after c Empty = Fail"
| "after c (Class P) = (if P c then Empty else Fail)"
| "after c (Alt r s) = Alt (after c r) (after c s)"
| "after c (Cat r s) =
     (if accepts_empty r then Alt (Cat (after c r) s) (after c s) else Cat (after c r) s)"
| "after c (Star r) = Cat (after c r) (Star r)"

fun re_test :: "re \<Rightarrow> string \<Rightarrow> bool" where
  \<comment> \<open>\<open>/^r$/.test(s)\<close>: with both anchors and no flag \<open>m\<close>, the whole string matches\<close>
  "re_test r [] = accepts_empty r"
| "re_test r (c # cs) = re_test (after c r) cs"

primrec times :: "nat \<Rightarrow> re \<Rightarrow> re" where
  \<comment> \<open>\<open>r{n}\<close>\<close>
  "times 0 r = Empty"
| "times (Suc n) r = Cat r (times n r)"

primrec at_most :: "nat \<Rightarrow> re \<Rightarrow> re" where
  \<comment> \<open>\<open>r{0,n}\<close>\<close>
  "at_most 0 r = Empty"
| "at_most (Suc n) r = Alt Empty (Cat r (at_most n r))"

definition between :: "nat \<Rightarrow> nat \<Rightarrow> re \<Rightarrow> re" where
  \<comment> \<open>\<open>r{m,n}\<close>\<close>
  "between m n r = Cat (times m r) (at_most (n - m) r)"

definition plus :: "re \<Rightarrow> re" where
  \<comment> \<open>\<open>r+\<close>\<close>
  "plus r = Cat r (Star r)"

definition chr :: "char \<Rightarrow> re" where
  "chr a = Class (\<lambda>c. c = a)"

definition chr_i :: "char \<Rightarrow> re" where
  \<comment> \<open>a letter of a pattern with the flag \<open>i\<close>\<close>
  "chr_i a = Class (\<lambda>c. ascii_upper c = ascii_upper a)"

definition lit_i :: "string \<Rightarrow> re" where
  "lit_i s = foldr (\<lambda>a r. Cat (chr_i a) r) s Empty"

text \<open>The meaning of a pattern, as the set of strings it matches.\<close>

definition conc :: "string set \<Rightarrow> string set \<Rightarrow> string set" where
  "conc A B = {u @ v | u v. u \<in> A \<and> v \<in> B}"

inductive_set rept :: "string set \<Rightarrow> string set" for A :: "string set" where
  rept_nil: "[] \<in> rept A"
| rept_more: "u \<in> A \<Longrightarrow> v \<in> rept A \<Longrightarrow> u @ v \<in> rept A"

primrec denote :: "re \<Rightarrow> string set" where
  "denote Fail = {}"
| "denote Empty = {[]}"
| "denote (Class P) = {[c] | c. P c}"
| "denote (Alt r s) = denote r \<union> denote s"
| "denote (Cat r s) = conc (denote r) (denote s)"
| "denote (Star r) = rept (denote r)"

section \<open>The data model (src/pages/Index.tsx)\<close>

text \<open>
  The registration form holds the ten fields a user types; the type \<open>Circuit\<close> is these
  and \<open>last_updated\<close>, as the spread \<open>{...formData, last_updated: ...}\<close> builds it.
\<close>

record formData =
  circuit_id :: string
  client_name :: string
  client_ip :: string
  subnet :: string
  dns :: string
  vlan :: string
  bandwidth :: string
  location :: string
  mux_id :: string
  port_id :: string

record circuit = formData +
  last_updated :: string

text \<open>
  What the components keep alike with \<open>useState\<close>: the flag of a pending save, the
  success notice, and the error object, whose keys keep their insertion order.
\<close>

record form_status =
  loading :: bool
  success :: bool
  errors :: "(string \<times> string) list"

text \<open>The patterns both forms use.\<close>

definition ipRegex :: re where
  \<comment> \<open>\<open>/^(\d{1,3}\.){3}\d{1,3}$/\<close>, also \<open>subnetRegex\<close> and \<open>dnsRegex\<close>\<close>
  "ipRegex = Cat (times 3 (Cat (between 1 3 (Class is_digit)) (chr CHR ''.'')))
                 (between 1 3 (Class is_digit))"

definition bandwidthRegex :: re where
  \<comment> \<open>\<open>/^\d+\s*(Mbps|Gbps|Kbps)$/i\<close>\<close>
  "bandwidthRegex =
     Cat (plus (Class is_digit))
       (Cat (Star (Class is_space))
          (Alt (Alt (lit_i ''Mbps'') (lit_i ''Gbps'')) (lit_i ''Kbps'')))"

definition octet_too_big :: "string \<Rightarrow> bool" where
  \<comment> \<open>\<open>part => parseInt(part) > 255\<close>; a comparison with \<open>NaN\<close> is false\<close>
  "octet_too_big part = (case parseInt part of Some n \<Rightarrow> n > 255 | None \<Rightarrow> False)"

definition vlan_out_of_range :: "string \<Rightarrow> bool" where
  \<comment> \<open>\<open>isNaN(vlanNum) || vlanNum < 1 || vlanNum > 4094\<close> for \<open>vlanNum = parseInt(value)\<close>\<close>
  "vlan_out_of_range v = (case parseInt v of None \<Rightarrow> True | Some n \<Rightarrow> n < 1 \<or> n > 4094)"

section \<open>Registration (the component ClientRegistration)\<close>

definition ClientRegistration_validateField :: "string \<Rightarrow> string \<Rightarrow> string" where
  "ClientRegistration_validateField field v =
     (if field = ''circuit_id'' then
        (if length v < 3 then ''Circuit ID must be at least 3 characters'' else '''')
      else if field = ''client_name'' then
        (if length v < 2 then ''Client name must be at least 2 characters'' else '''')
      else if field = ''client_ip'' then
        (if \<not> re_test ipRegex v then ''Invalid IP address format'' else '''')
      else if field = ''subnet'' then
        (if \<not> re_test ipRegex v then ''Invalid subnet mask format'' else '''')
      else if field = ''dns'' then
        (if \<not> re_test ipRegex v then ''Invalid DNS server format'' else '''')
      else if field = ''vlan'' then
        (if vlan_out_of_range v then ''VLAN must be between 1-4094'' else '''')
      else if field = ''bandwidth'' then
        (if \<not> re_test bandwidthRegex v
         then ''Bandwidth must include unit (e.g., 100 Mbps, 1 Gbps)'' else '''')
      else if field = ''location'' then
        (if length v < 3 then ''Location must be at least 3 characters'' else '''')
      else if field = ''mux_id'' then
        (if length v < 3 then ''MUX ID must be at least 3 characters'' else '''')
      else if field = ''port_id'' then
        (if length v < 3 then ''Port ID must be at least 3 characters'' else '''')
      else '''')"

section \<open>Editing (src/components/CircuitDetails.tsx)\<close>

definition CircuitDetails_validateField :: "string \<Rightarrow> string \<Rightarrow> string" where
  "CircuitDetails_validateField field v =
     (if field = ''client_ip'' then
        (if \<not> re_test ipRegex v then ''Invalid IP address format''
         else if list_ex octet_too_big (split_on CHR ''.'' v)
         then ''IP address octets must be 0-255'' else '''')
      else if field = ''subnet'' then
        (if \<not> re_test ipRegex v then ''Invalid subnet mask format''
         else if list_ex octet_too_big (split_on CHR ''.'' v)
         then ''Subnet mask octets must be 0-255'' else '''')
      else if field = ''dns'' then
        (if \<not> re_test ipRegex v then ''Invalid DNS server format''
         else if list_ex octet_too_big (split_on CHR ''.'' v)
         then ''DNS server octets must be 0-255'' else '''')
      else if field = ''vlan'' then
        (if vlan_out_of_range v then ''VLAN must be between 1-4094'' else '''')
      else if field = ''bandwidth'' then
        (if \<not> re_test bandwidthRegex v
         then ''Bandwidth must include unit (e.g., 100 Mbps, 1 Gbps)'' else '''')
      else if field = ''client_name'' then
        (if length v < 2 then ''Client name must be at least 2 characters'' else '''')
      else '''')"

datatype key =
  Circuit_id | Client_name | Client_ip | Subnet | Dns | Vlan | Bandwidth | Location
  | Mux_id | Port_id | Last_updated

fun key_name :: "key \<Rightarrow> string" where
  "key_name Circuit_id = ''circuit_id''"
| "key_name Client_name = ''client_name''"
| "key_name Client_ip = ''client_ip''"
| "key_name Subnet = ''subnet''"
| "key_name Dns = ''dns''"
| "key_name Vlan = ''vlan''"
| "key_name Bandwidth = ''bandwidth''"
| "key_name Location = ''location''"
| "key_name Mux_id = ''mux_id''"
| "key_name Port_id = ''port_id''"
| "key_name Last_updated = ''last_updated''"

fun get_field :: "key \<Rightarrow> circuit \<Rightarrow> string" where
  \<comment> \<open>\<open>c[field]\<close>\<close>
  "get_field Circuit_id c = circuit_id c"
| "get_field Client_name c = client_name c"
| "get_field Client_ip c = client_ip c"
| "get_field Subnet c = subnet c"
| "get_field Dns c = dns c"
| "get_field Vlan c = vlan c"
| "get_field Bandwidth c = bandwidth c"
| "get_field Location c = location c"
| "get_field Mux_id c = mux_id c"
| "get_field Port_id c = port_id c"
| "get_field Last_updated c = last_updated c"

fun set_field :: "key \<Rightarrow> string \<Rightarrow> circuit \<Rightarrow> circuit" where
  \<comment> \<open>\<open>{ ...c, [field]: value }\<close>\<close>
  "set_field Circuit_id v c = c\<lparr>circuit_id := v\<rparr>"
| "set_field Client_name v c = c\<lparr>client_name := v\<rparr>"
| "set_field Client_ip v c = c\<lparr>client_ip := v\<rparr>"
| "set_field Subnet v c = c\<lparr>subnet := v\<rparr>"
| "set_field Dns v c = c\<lparr>dns := v\<rparr>"
| "set_field Vlan v c = c\<lparr>vlan := v\<rparr>"
| "set_field Bandwidth v c = c\<lparr>bandwidth := v\<rparr>"
| "set_field Location v c = c\<lparr>location := v\<rparr>"
| "set_field Mux_id v c = c\<lparr>mux_id := v\<rparr>"
| "set_field Port_id v c = c\<lparr>port_id := v\<rparr>"
| "set_field Last_updated v c = c\<lparr>last_updated := v\<rparr>"

text \<open>
  The state of the component: the property \<open>circuit\<close> it is rendered with (the component
  renders nothing when it is \<open>null\<close>), and its own \<open>useState\<close> cells.
\<close>

record details = form_status +
  circuit :: circuit
  isEditing :: bool
  editedCircuit :: "circuit option"

definition mount :: "circuit \<Rightarrow> details" where
  \<comment> \<open>the initial values of the \<open>useState\<close> cells\<close>
  "mount c = \<lparr>loading = False, success = False, errors = [],
               circuit = c, isEditing = False, editedCircuit = Some c\<rparr>"

definition handleEdit :: "details \<Rightarrow> details" where
  "handleEdit st = st\<lparr>isEditing := True, editedCircuit := Some (circuit st),
                       errors := [], success := False\<rparr>"

definition handleCancel :: "details \<Rightarrow> details" where
  "handleCancel st = st\<lparr>isEditing := False, editedCircuit := Some (circuit st), errors := []\<rparr>"

definition editableFields :: "key list" where
  "editableFields = [Client_name, Vlan, Bandwidth, Location, Mux_id, Port_id,
                     Client_ip, Subnet, Dns]"

definition save_entry :: "circuit \<Rightarrow> (string \<times> string) list \<Rightarrow> key \<Rightarrow> (string \<times> string) list" where
  \<comment> \<open>the body of the \<open>forEach\<close> of \<open>handleSave\<close>\<close>
  "save_entry ec newErrors field =
     (let error = CircuitDetails_validateField (key_name field) (get_field field ec)
      in if error \<noteq> [] then AList.update (key_name field) error newErrors else newErrors)"

definition save_errors :: "circuit \<Rightarrow> (string \<times> string) list" where
  "save_errors ec = foldl (save_entry ec) [] editableFields"

definition handleSave :: "details \<Rightarrow> details \<times> circuit option" where
  \<comment> \<open>the second component is the \<open>editedCircuit\<close> that the callback given to
      \<open>setTimeout\<close> has captured, when one is scheduled\<close>
  "handleSave st =
     (case editedCircuit st of
        None \<Rightarrow> (st, None)
      | Some ec \<Rightarrow>
          (let newErrors = save_errors ec
           in if newErrors \<noteq> [] then (st\<lparr>errors := newErrors\<rparr>, None)
              else (st\<lparr>loading := True\<rparr>, Some ec)))"

definition save_timeout :: "string \<Rightarrow> circuit \<Rightarrow> details \<Rightarrow> circuit \<times> details" where
  \<comment> \<open>the callback of \<open>handleSave\<close>; \<open>now\<close> is \<open>new Date().toLocaleString()\<close> read when it
      runs. The first component is the record passed to \<open>onUpdate\<close>.\<close>
  "save_timeout now ec st =
     (let updatedCircuit = ec\<lparr>last_updated := now\<rparr>
      in (updatedCircuit, st\<lparr>isEditing := False, success := True, loading := False\<rparr>))"

definition handleFieldChange :: "key \<Rightarrow> string \<Rightarrow> details \<Rightarrow> details" where
  "handleFieldChange field v st =
     (case editedCircuit st of
        None \<Rightarrow> st
      | Some ec \<Rightarrow>
          st\<lparr>editedCircuit := Some (set_field field v ec),
             errors := (case map_of (errors st) (key_name field) of
                          None \<Rightarrow> errors st
                        | Some e \<Rightarrow> if e \<noteq> [] then AList.update (key_name field) [] (errors st)
                                    else errors st)\<rparr>)"

text \<open>
  What a user can do with the rendered component. \<open>Edit Details\<close> is rendered when not
  editing; the inputs, \<open>Cancel\<close> and \<open>Save Changes\<close> when editing, the last one disabled
  while a save is pending. \<open>renderField\<close> is called for the nine keys of
  \<open>editableFields\<close> only, so no input exists for \<open>circuit_id\<close> or \<open>last_updated\<close>.
  The parent (src/pages/Index.tsx) passes \<open>setSelectedCircuit\<close> as \<open>onUpdate\<close>, so an
  emitted record becomes the property \<open>circuit\<close>.
\<close>

datatype event =
  Click_edit | Type_into key string | Click_cancel | Click_save
  | Save_timer string | Success_timer

record session =
  view :: details
  timers :: "circuit list"
  updates :: "circuit list"

definition start :: "circuit \<Rightarrow> session" where
  "start c = \<lparr>view = mount c, timers = [], updates = []\<rparr>"

fun step :: "session \<Rightarrow> event \<Rightarrow> session" where
  "step s Click_edit =
     (if \<not> isEditing (view s) then s\<lparr>view := handleEdit (view s)\<rparr> else s)"
| "step s (Type_into field v) =
     (if isEditing (view s) \<and> field \<in> set editableFields
      then s\<lparr>view := handleFieldChange field v (view s)\<rparr> else s)"
| "step s Click_cancel =
     (if isEditing (view s) then s\<lparr>view := handleCancel (view s)\<rparr> else s)"
| "step s Click_save =
     (if isEditing (view s) \<and> \<not> loading (view s)
      then (case handleSave (view s) of
              (v, None) \<Rightarrow> s\<lparr>view := v\<rparr>
            | (v, Some ec) \<Rightarrow> s\<lparr>view := v, timers := timers s @ [ec]\<rparr>)
      else s)"
| "step s (Save_timer now) =
     (case timers s of
        [] \<Rightarrow> s
      | ec # rest \<Rightarrow>
          (case save_timeout now ec (view s) of
             (updatedCircuit, v) \<Rightarrow>
               s\<lparr>view := v\<lparr>circuit := updatedCircuit\<rparr>, timers := rest,
                 updates := updatedCircuit # updates s\<rparr>))"
| "step s Success_timer = s\<lparr>view := (view s)\<lparr>success := False\<rparr>\<rparr>"

definition run :: "session \<Rightarrow> event list \<Rightarrow> session" where
  "run s evs = foldl step s evs"

section \<open>Registration: submitting the form\<close>

record registration = form_status +
  formData :: formData

definition entries :: "formData \<Rightarrow> (string \<times> string) list" where
  \<comment> \<open>\<open>Object.entries(formData)\<close>, in the order the keys were created\<close>
  "entries fd =
     [(''circuit_id'', circuit_id fd), (''client_name'', client_name fd),
      (''client_ip'', client_ip fd), (''subnet'', subnet fd), (''dns'', dns fd),
      (''vlan'', vlan fd), (''bandwidth'', bandwidth fd), (''location'', location fd),
      (''mux_id'', mux_id fd), (''port_id'', port_id fd)]"

definition required_message :: "string \<Rightarrow> string" where
  "required_message field =
     upper_at_boundary False (replace_first CHR ''_'' CHR '' '' field) @ '' is required''"

definition submit_entry :: "(string \<times> string) list \<Rightarrow> string \<times> string \<Rightarrow> (string \<times> string) list" where
  \<comment> \<open>the body of the \<open>forEach\<close> of \<open>handleSubmit\<close>\<close>
  "submit_entry newErrors e =
     (case e of (field, v) \<Rightarrow>
        if trim v = [] then AList.update field (required_message field) newErrors
        else (let error = ClientRegistration_validateField field v
              in if error \<noteq> [] then AList.update field error newErrors else newErrors))"

definition submit_errors :: "formData \<Rightarrow> (string \<times> string) list" where
  "submit_errors fd = foldl submit_entry [] (entries fd)"

definition handleSubmit :: "registration \<Rightarrow> registration \<times> formData option" where
  \<comment> \<open>the second component is the \<open>formData\<close> that the scheduled callback has captured\<close>
  "handleSubmit st =
     (let newErrors = submit_errors (formData st)
      in if newErrors \<noteq> [] then (st\<lparr>errors := newErrors\<rparr>, None)
         else (st\<lparr>loading := True\<rparr>, Some (formData st)))"

definition submit_timeout :: "string \<Rightarrow> formData \<Rightarrow> registration \<Rightarrow> circuit \<times> registration" where
  \<comment> \<open>the callback of \<open>handleSubmit\<close>; the first component is passed to \<open>onRegister\<close>\<close>
  "submit_timeout now fd st =
     (let newCircuit =
            \<lparr>circuit_id = circuit_id fd, client_name = client_name fd,
             client_ip = client_ip fd, subnet = subnet fd, dns = dns fd, vlan = vlan fd,
             bandwidth = bandwidth fd, location = location fd, mux_id = mux_id fd,
             port_id = port_id fd, last_updated = now\<rparr>
      in (newCircuit, st\<lparr>success := True, loading := False\<rparr>))"

section \<open>Lookup (the component CircuitSearch, in src/components/Header.tsx)\<close>

definition mockCircuits :: "circuit list" where
  "mockCircuits =
     [\<lparr>circuit_id = ''CKT-001-NYC'', client_name = ''TechCorp Solutions'',
       client_ip = ''192.168.1.100'', subnet = ''255.255.255.0'', dns = ''8.8.8.8'',
       vlan = ''100'', bandwidth = ''1 Gbps'', location = ''New York Data Center'',
       mux_id = ''MUX-NYC-01'', port_id = ''Port-24'',
       last_updated = ''2024-06-14 10:30:00''\<rparr>,
      \<lparr>circuit_id = ''CKT-002-LAX'', client_name = ''Global Enterprises Inc'',
       client_ip = ''10.0.0.50'', subnet = ''255.255.0.0'', dns = ''1.1.1.1'',
       vlan = ''200'', bandwidth = ''500 Mbps'', location = ''Los Angeles Data Center'',
       mux_id = ''MUX-LAX-03'', port_id = ''Port-12'',
       last_updated = ''2024-06-13 15:45:00''\<rparr>,
      \<lparr>circuit_id = ''CKT-003-CHI'', client_name = ''Metro Networks LLC'',
       client_ip = ''172.16.10.25'', subnet = ''255.255.255.128'', dns = ''8.8.4.4'',
       vlan = ''150'', bandwidth = ''2 Gbps'', location = ''Chicago Data Center'',
       mux_id = ''MUX-CHI-02'', port_id = ''Port-08'',
       last_updated = ''2024-06-14 09:15:00''\<rparr>]"

datatype outcome = Error string | Selected circuit

definition not_found :: "string \<Rightarrow> string" where
  \<comment> \<open>the template literal of \<open>setError\<close>; \<open>CHR 0x22\<close> is the double quote\<close>
  "not_found circuitId =
     ''Circuit ID '' @ [CHR 0x22] @ circuitId @ [CHR 0x22] @ '' not found in the system''"

definition handleSearch :: "string \<Rightarrow> outcome" where
  \<comment> \<open>\<open>Error\<close> is the message given to \<open>setError\<close>, \<open>Selected\<close> the record given to
      \<open>onCircuitSelect\<close> by the scheduled callback\<close>
  "handleSearch circuitId =
     (if trim circuitId = [] then Error ''Please enter a Circuit ID''
      else (case find (\<lambda>c. toLowerCase (circuit_id c) = toLowerCase circuitId) mockCircuits of
              Some c \<Rightarrow> Selected c
            | None \<Rightarrow> Error (not_found circuitId)))"

section \<open>Predicates used in the statements and proofs\<close>

definition octet_shape :: "string \<Rightarrow> bool" where
  "octet_shape g = (1 \<le> length g \<and> length g \<le> 3 \<and> list_all is_digit g)"

fun typing_or_save :: "event \<Rightarrow> bool" where
  "typing_or_save (Type_into field v) = True"
| "typing_or_save Click_save = True"
| "typing_or_save e = False"

definition editing_of :: "circuit \<Rightarrow> session \<Rightarrow> bool" where
  \<comment> \<open>editing the record, nothing passed on yet, and no save pending unless scheduled\<close>
  "editing_of c s =
     (updates s = [] \<and> circuit (view s) = c \<and> isEditing (view s) \<and> \<not> success (view s)
      \<and> (timers s = [] \<longrightarrow> \<not> loading (view s)))"

definition numeric_string :: "string \<Rightarrow> bool" where
  \<comment> \<open>a decimal integer numeral: an optional sign and one or more digits\<close>
  "numeric_string s =
     (let d = (if take 1 s = ''-'' \<or> take 1 s = ''+'' then drop 1 s else s)
      in d \<noteq> [] \<and> list_all is_digit d)"

text \<open>
  The field name of the required message as the specification words it: the underscores
  of the key become spaces and every word gets a capital first letter.
\<close>

fun capitalize :: "string \<Rightarrow> string" where
  "capitalize [] = []"
| "capitalize (c # cs) = ascii_upper c # cs"

fun join_words :: "string list \<Rightarrow> string" where
  "join_words [] = []"
| "join_words [w] = w"
| "join_words (w # ws) = w @ '' '' @ join_words ws"

definition spec_field_name :: "string \<Rightarrow> string" where
  "spec_field_name field = join_words (map capitalize (split_on CHR ''_'' field))"

definition submit_message :: "string \<Rightarrow> string \<Rightarrow> string" where
  "submit_message field v =
     (if trim v = [] then required_message field else ClientRegistration_validateField field v)"

definition keeps_id :: "string \<Rightarrow> session \<Rightarrow> bool" where
  \<comment> \<open>every record the session holds carries the identifier\<close>
  "keeps_id i s =
     (circuit_id (circuit (view s)) = i
      \<and> (case editedCircuit (view s) of None \<Rightarrow> True | Some ec \<Rightarrow> circuit_id ec = i)
      \<and> list_all (\<lambda>ec. circuit_id ec = i) (timers s)
      \<and> list_all (\<lambda>u. circuit_id u = i) (updates s))"

section \<open>What the patterns match\<close>

lemma conc_iff: "w \<in> conc A B \<longleftrightarrow> (\<exists>u v. w = u @ v \<and> u \<in> A \<and> v \<in> B)"
  by (auto simp: conc_def)

lemma concI: "u \<in> A \<Longrightarrow> v \<in> B \<Longrightarrow> u @ v \<in> conc A B"
  by (auto simp: conc_def)

lemma nil_in_conc: "[] \<in> conc A B \<longleftrightarrow> [] \<in> A \<and> [] \<in> B"
  by (auto simp: conc_def)

lemma cons_in_conc:
  "c # w \<in> conc A B \<longleftrightarrow> ([] \<in> A \<and> c # w \<in> B) \<or> (\<exists>u v. w = u @ v \<and> c # u \<in> A \<and> v \<in> B)"
  by (auto simp: conc_def Cons_eq_append_conv)

lemma cons_in_rept_D:
  assumes "x \<in> rept A" and "x = c # w"
  shows "\<exists>u v. w = u @ v \<and> c # u \<in> A \<and> v \<in> rept A"
  using assms
proof (induction arbitrary: w rule: rept.induct)
  case rept_nil
  then show ?case by simp
next
  case (rept_more u v)
  show ?case
  proof (cases u)
    case Nil
    with rept_more show ?thesis by simp
  next
    case (Cons a u')
    with rept_more.prems have "a = c" and "w = u' @ v" by simp_all
    with rept_more.hyps Cons show ?thesis by blast
  qed
qed

lemma cons_in_rept:
  "c # w \<in> rept A \<longleftrightarrow> (\<exists>u v. w = u @ v \<and> c # u \<in> A \<and> v \<in> rept A)"
proof
  assume "c # w \<in> rept A"
  then show "\<exists>u v. w = u @ v \<and> c # u \<in> A \<and> v \<in> rept A"
    by (rule cons_in_rept_D) simp
next
  assume "\<exists>u v. w = u @ v \<and> c # u \<in> A \<and> v \<in> rept A"
  then obtain u v where "w = u @ v" "c # u \<in> A" "v \<in> rept A" by blast
  then show "c # w \<in> rept A"
    using rept_more[of "c # u" A v] by simp
qed

lemma accepts_empty_iff: "accepts_empty r \<longleftrightarrow> [] \<in> denote r"
  by (induction r) (simp_all add: nil_in_conc rept_nil)

lemma after_iff: "w \<in> denote (after c r) \<longleftrightarrow> c # w \<in> denote r"
proof (induction r arbitrary: w)
  case (Cat r1 r2)
  have whole: "c # w \<in> conc (denote r1) (denote r2) \<longleftrightarrow>
      ([] \<in> denote r1 \<and> c # w \<in> denote r2)
      \<or> (\<exists>u v. w = u @ v \<and> c # u \<in> denote r1 \<and> v \<in> denote r2)"
    by (rule cons_in_conc)
  have left: "w \<in> conc (denote (after c r1)) (denote r2) \<longleftrightarrow>
      (\<exists>u v. w = u @ v \<and> c # u \<in> denote r1 \<and> v \<in> denote r2)"
    by (simp add: conc_iff Cat.IH(1))
  show ?case
  proof (cases "accepts_empty r1")
    case True
    then have "[] \<in> denote r1" by (simp add: accepts_empty_iff)
    with True whole left Cat.IH(2)[of w] show ?thesis by auto
  next
    case False
    then have "[] \<notin> denote r1" by (simp add: accepts_empty_iff)
    with False whole left show ?thesis by auto
  qed
next
  case (Star r)
  then show ?case
    by (simp add: cons_in_rept conc_iff)
qed simp_all

lemma re_test_iff: "re_test r s \<longleftrightarrow> s \<in> denote r"
  by (induction s arbitrary: r) (simp_all add: accepts_empty_iff after_iff)

lemma rept_class: "w \<in> rept {[c] | c. P c} \<longleftrightarrow> list_all P w"
proof (induction w)
  case Nil
  show ?case by (simp add: rept_nil)
next
  case (Cons a w)
  show ?case by (simp add: cons_in_rept Cons)
qed

lemma denote_star_class: "w \<in> denote (Star (Class P)) \<longleftrightarrow> list_all P w"
  by (simp add: rept_class)

lemma denote_plus_class: "w \<in> denote (plus (Class P)) \<longleftrightarrow> w \<noteq> [] \<and> list_all P w"
  by (cases w) (simp_all add: plus_def nil_in_conc cons_in_conc rept_class)

lemma denote_times_class: "w \<in> denote (times n (Class P)) \<longleftrightarrow> length w = n \<and> list_all P w"
proof (induction n arbitrary: w)
  case 0
  show ?case by auto
next
  case (Suc n)
  show ?case by (cases w) (auto simp: nil_in_conc cons_in_conc Suc)
qed

lemma denote_at_most_class: "w \<in> denote (at_most n (Class P)) \<longleftrightarrow> length w \<le> n \<and> list_all P w"
proof (induction n arbitrary: w)
  case 0
  show ?case by auto
next
  case (Suc n)
  show ?case by (cases w) (auto simp: nil_in_conc cons_in_conc Suc)
qed

lemma denote_between_class:
  assumes "m \<le> n"
  shows "w \<in> denote (between m n (Class P)) \<longleftrightarrow> m \<le> length w \<and> length w \<le> n \<and> list_all P w"
proof
  assume "w \<in> denote (between m n (Class P))"
  then obtain u v where "w = u @ v" "length u = m" "list_all P u" "length v \<le> n - m" "list_all P v"
    by (auto simp: between_def conc_iff denote_times_class denote_at_most_class)
  with assms show "m \<le> length w \<and> length w \<le> n \<and> list_all P w" by auto
next
  assume a: "m \<le> length w \<and> length w \<le> n \<and> list_all P w"
  have "take m w \<in> denote (times m (Class P))"
    using a by (auto simp: denote_times_class list_all_iff dest: in_set_takeD)
  moreover have "drop m w \<in> denote (at_most (n - m) (Class P))"
    using a by (auto simp: denote_at_most_class list_all_iff dest: in_set_dropD)
  ultimately have "take m w @ drop m w \<in> conc (denote (times m (Class P))) (denote (at_most (n - m) (Class P)))"
    by (rule concI)
  then show "w \<in> denote (between m n (Class P))" by (simp add: between_def)
qed

lemma denote_lit_i: "w \<in> denote (lit_i s) \<longleftrightarrow> map ascii_upper w = map ascii_upper s"
proof (induction s arbitrary: w)
  case Nil
  show ?case by (auto simp: lit_i_def)
next
  case (Cons a s)
  have "lit_i (a # s) = Cat (chr_i a) (lit_i s)" by (simp add: lit_i_def)
  then show ?case
    by (cases w) (auto simp: nil_in_conc cons_in_conc chr_i_def Cons)
qed

subsection \<open>Numbers and dotted quads\<close>

lemma digit_not_space: "is_digit c \<Longrightarrow> \<not> is_space c"
  by (auto simp: is_digit_def is_space_def)

lemma digit_is_radix_digit: "is_digit c \<Longrightarrow> is_radix_digit 10 c"
  by (auto simp: is_digit_def is_radix_digit_def digit_value_def)

lemma digit_cases: "is_digit c \<Longrightarrow> c \<noteq> CHR ''-'' \<and> c \<noteq> CHR ''+'' \<and> c \<noteq> CHR ''x'' \<and> c \<noteq> CHR ''X'' \<and> c \<noteq> CHR ''.''"
  by (auto simp: is_digit_def)

lemma parseInt_digits:
  assumes "ds \<noteq> []" and "list_all is_digit ds"
  shows "parseInt ds = Some (int (to_number 10 ds))"
proof -
  from assms obtain c cs where ds: "ds = c # cs" and c: "is_digit c" and cs: "list_all is_digit cs"
    by (cases ds) auto
  have all: "takeWhile (is_radix_digit 10) (c # cs) = c # cs"
    using c cs by (auto simp: list_all_iff digit_is_radix_digit)
  show ?thesis
  proof (cases cs)
    case Nil
    with all show ?thesis
      using digit_cases[OF c] digit_not_space[OF c]
      by (simp add: parseInt_def Let_def ds)
  next
    case (Cons e es)
    with cs have "is_digit e" by simp
    with all Cons show ?thesis
      using digit_cases[OF c] digit_cases[of e] digit_not_space[OF c]
      by (simp add: parseInt_def Let_def ds)
  qed
qed

lemma octet_too_big_digits:
  "ds \<noteq> [] \<Longrightarrow> list_all is_digit ds \<Longrightarrow> octet_too_big ds \<longleftrightarrow> 255 < to_number 10 ds"
  by (simp add: octet_too_big_def parseInt_digits)

lemma split_on_not_Nil: "split_on sep s \<noteq> []"
  by (induction s) (auto split: list.split)

lemma split_on_no_sep: "sep \<notin> set a \<Longrightarrow> split_on sep a = [a]"
  by (induction a) auto

lemma split_on_append: "sep \<notin> set a \<Longrightarrow> split_on sep (a @ sep # rest) = a # split_on sep rest"
  by (induction a) (auto split: list.split simp: split_on_not_Nil)

lemma digits_no_dot: "list_all is_digit a \<Longrightarrow> CHR ''.'' \<notin> set a"
  using digit_cases by (auto simp: list_all_iff)

lemma in_Cat: "u \<in> denote r \<Longrightarrow> v \<in> denote s \<Longrightarrow> u @ v \<in> denote (Cat r s)"
  by (simp add: concI)

lemma ipRegex_shape:
  assumes "octet_shape a" "octet_shape b" "octet_shape c" "octet_shape d"
  shows "re_test ipRegex (a @ ''.'' @ b @ ''.'' @ c @ ''.'' @ d)"
proof -
  let ?O = "between 1 3 (Class is_digit)"
  let ?G = "Cat ?O (chr CHR ''.'')"
  have oct: "g \<in> denote ?O" if "octet_shape g" for g
    using that by (simp add: denote_between_class octet_shape_def)
  have grp: "g @ ''.'' \<in> denote ?G" if "octet_shape g" for g
    using oct[OF that] by (auto intro!: concI simp: chr_def)
  have "times 3 ?G = Cat ?G (Cat ?G (Cat ?G Empty))"
    by (simp add: eval_nat_numeral)
  moreover have "(a @ ''.'') @ (b @ ''.'') @ (c @ ''.'') @ [] \<in> denote (Cat ?G (Cat ?G (Cat ?G Empty)))"
    by (rule in_Cat[OF grp[OF assms(1)] in_Cat[OF grp[OF assms(2)] in_Cat[OF grp[OF assms(3)]]]]) simp
  ultimately have "(a @ ''.'') @ (b @ ''.'') @ (c @ ''.'') \<in> denote (times 3 ?G)" by simp
  then have "((a @ ''.'') @ (b @ ''.'') @ (c @ ''.'')) @ d \<in> denote ipRegex"
    unfolding ipRegex_def by (rule in_Cat[OF _ oct[OF assms(4)]])
  then show ?thesis by (simp add: re_test_iff)
qed

lemma split_quad:
  assumes "octet_shape a" "octet_shape b" "octet_shape c" "octet_shape d"
  shows "split_on CHR ''.'' (a @ ''.'' @ b @ ''.'' @ c @ ''.'' @ d) = [a, b, c, d]"
  using assms by (simp add: octet_shape_def split_on_append split_on_no_sep digits_no_dot)

lemma quad_too_big:
  assumes "octet_shape a" "octet_shape b" "octet_shape c" "octet_shape d"
    and "255 < to_number 10 a \<or> 255 < to_number 10 b \<or> 255 < to_number 10 c \<or> 255 < to_number 10 d"
  shows "list_ex octet_too_big (split_on CHR ''.'' (a @ ''.'' @ b @ ''.'' @ c @ ''.'' @ d))"
proof -
  have big: "octet_too_big g \<longleftrightarrow> 255 < to_number 10 g" if "octet_shape g" for g
    using that by (intro octet_too_big_digits) (auto simp: octet_shape_def)
  have parts: "split_on CHR ''.'' (a @ ''.'' @ b @ ''.'' @ c @ ''.'' @ d) = [a, b, c, d]"
    by (rule split_quad[OF assms(1-4)])
  show ?thesis
    unfolding parts using assms by (simp add: big)
qed

text \<open>
  Claim C1. A value made of four groups of one to three digits separated by dots, one of
  which is a number above 255, is refused by the validator of the edit form for
  \<open>client_ip\<close>, \<open>subnet\<close> and \<open>dns\<close> with the octet message of the field, which is
  not its format message, and is accepted by the validator of the registration form.
\<close>

theorem octet_range_only_when_editing:
  assumes "\<forall>g \<in> set [a, b, c, d]. 1 \<le> length g \<and> length g \<le> 3 \<and> list_all is_digit g"
    and "\<exists>g \<in> set [a, b, c, d]. 255 < to_number 10 g"
    and "v = a @ ''.'' @ b @ ''.'' @ c @ ''.'' @ d"
  shows "CircuitDetails_validateField ''client_ip'' v = ''IP address octets must be 0-255''
       \<and> CircuitDetails_validateField ''subnet'' v = ''Subnet mask octets must be 0-255''
       \<and> CircuitDetails_validateField ''dns'' v = ''DNS server octets must be 0-255''
       \<and> ''IP address octets must be 0-255'' \<noteq> ''Invalid IP address format''
       \<and> ''Subnet mask octets must be 0-255'' \<noteq> ''Invalid subnet mask format''
       \<and> ''DNS server octets must be 0-255'' \<noteq> ''Invalid DNS server format''
       \<and> ClientRegistration_validateField ''client_ip'' v = ''''
       \<and> ClientRegistration_validateField ''subnet'' v = ''''
       \<and> ClientRegistration_validateField ''dns'' v = ''''"
proof -
  from assms(1) have sh: "octet_shape a" "octet_shape b" "octet_shape c" "octet_shape d"
    by (simp_all add: octet_shape_def)
  from assms(2) have big: "255 < to_number 10 a \<or> 255 < to_number 10 b \<or> 255 < to_number 10 c \<or> 255 < to_number 10 d"
    by simp
  have m: "re_test ipRegex v" unfolding assms(3) by (rule ipRegex_shape[OF sh])
  have e: "list_ex octet_too_big (split_on CHR ''.'' v)" unfolding assms(3) by (rule quad_too_big[OF sh big])
  show ?thesis
    by (simp add: CircuitDetails_validateField_def ClientRegistration_validateField_def m e)
qed

theorem octet_range_only_when_editing_witness:
  "CircuitDetails_validateField ''client_ip'' ''192.168.1.256'' = ''IP address octets must be 0-255''
   \<and> ClientRegistration_validateField ''client_ip'' ''192.168.1.256'' = ''''"
  using octet_range_only_when_editing[of "''192''" "''168''" "''1''" "''256''" "''192.168.1.256''"]
  by (simp add: is_digit_def to_number_def digit_value_def)

section \<open>The edit form: cancelling\<close>

lemma set_field_keeps_id: "field \<in> set editableFields \<Longrightarrow> circuit_id (set_field field v ec) = circuit_id ec"
  by (cases field) (simp_all add: editableFields_def)

lemma typing_frame:
  "loading (handleFieldChange f v st) = loading st \<and> success (handleFieldChange f v st) = success st
   \<and> circuit (handleFieldChange f v st) = circuit st \<and> isEditing (handleFieldChange f v st) = isEditing st"
  by (simp add: handleFieldChange_def split: option.split)

lemma handleSave_cases:
  "handleSave d = (d', t) \<Longrightarrow>
     (t = None \<and> (\<exists>es. d' = d\<lparr>errors := es\<rparr>))
     \<or> (t = editedCircuit d \<and> t \<noteq> None \<and> d' = d\<lparr>loading := True\<rparr>)"
proof -
  assume hs: "handleSave d = (d', t)"
  show ?thesis
  proof (cases "editedCircuit d")
    case None
    with hs have "t = None" "d' = d\<lparr>errors := errors d\<rparr>" by (simp_all add: handleSave_def)
    then show ?thesis by blast
  next
    case (Some ec)
    show ?thesis
    proof (cases "save_errors ec = []")
      case True
      with hs Some have "t = Some ec" "d' = d\<lparr>loading := True\<rparr>"
        by (simp_all add: handleSave_def Let_def)
      with Some show ?thesis by simp
    next
      case False
      with hs Some have "t = None" "d' = d\<lparr>errors := save_errors ec\<rparr>"
        by (simp_all add: handleSave_def Let_def)
      then show ?thesis by blast
    qed
  qed
qed

lemma editing_of_step:
  assumes "editing_of c s" and "typing_or_save e"
  shows "editing_of c (step s e)"
proof (cases e)
  case (Type_into field v)
  with assms(1) show ?thesis by (simp add: editing_of_def typing_frame)
next
  case Click_save
  obtain d' t where hs: "handleSave (view s) = (d', t)" by (cases "handleSave (view s)")
  from handleSave_cases[OF hs] assms(1) show ?thesis
    by (auto simp: Click_save editing_of_def hs split: option.splits)
qed (use assms(2) in simp_all)

lemma editing_of_run:
  "list_all typing_or_save mid \<Longrightarrow> editing_of c s \<Longrightarrow> editing_of c (run s mid)"
  unfolding run_def
  by (induction mid arbitrary: s) (simp_all add: editing_of_step)

lemma cancel_editing_of:
  assumes "editing_of c s" and "timers s = []"
  shows "step s Click_cancel = start c"
proof -
  from assms have "view (step s Click_cancel) = mount c"
    by (simp add: editing_of_def handleCancel_def mount_def)
  moreover from assms have "timers (step s Click_cancel) = []" "updates (step s Click_cancel) = []"
    by (simp_all add: editing_of_def)
  ultimately show ?thesis by (simp add: start_def)
qed

text \<open>
  Claim C6. From a freshly rendered record, entering edit mode, then typing any values
  into any fields and clicking \<open>Save Changes\<close> any number of times without a save going
  through, then cancelling, gives back the initial state: the property \<open>circuit\<close> is the
  original record, the editable copy is the original record again, the error object is
  empty, the component is not editing, and nothing was passed to \<open>onUpdate\<close>.
\<close>

theorem cancel_restores_original:
  assumes "list_all typing_or_save mid" and "timers (run (start c) (Click_edit # mid)) = []"
  shows "run (start c) (Click_edit # mid @ [Click_cancel]) = start c"
proof -
  let ?s = "run (step (start c) Click_edit) mid"
  have run_eq: "run (start c) (Click_edit # mid) = ?s" by (simp add: run_def)
  have "editing_of c (step (start c) Click_edit)"
    by (simp add: editing_of_def start_def mount_def handleEdit_def)
  with assms(1) have "editing_of c ?s" by (rule editing_of_run)
  moreover from assms(2) have "timers ?s = []" by (simp only: run_eq)
  ultimately have "step ?s Click_cancel = start c" by (rule cancel_editing_of)
  then show ?thesis by (simp add: run_def)
qed

theorem cancel_restores_original_witness:
  "errors (view (run (start (mockCircuits ! 0))
      [Click_edit, Type_into Vlan ''0'', Click_save, Type_into Client_name ''X'']))
     = [(''vlan'', ''VLAN must be between 1-4094'')]
   \<and> run (start (mockCircuits ! 0))
        [Click_edit, Type_into Vlan ''0'', Click_save, Type_into Client_name ''X'', Click_cancel]
     = start (mockCircuits ! 0)"
proof -
  let ?mid = "[Type_into Vlan ''0'', Click_save, Type_into Client_name ''X'']"
  have k: "list_all typing_or_save ?mid" by simp
  have t: "timers (run (start (mockCircuits ! 0)) (Click_edit # ?mid)) = []" by code_simp
  have e: "errors (view (run (start (mockCircuits ! 0)) (Click_edit # ?mid)))
      = [(''vlan'', ''VLAN must be between 1-4094'')]" by code_simp
  from cancel_restores_original[OF k t] e show ?thesis by simp
qed

section \<open>Bandwidth\<close>

lemmas letter_tables = ascii_upper_def toLowerCase_char_def lower_letters_def upper_letters_def
  latin1_upper_def latin1_lower_def

lemma fold_letter:
  "ascii_upper c = ascii_upper CHR ''M'' \<longleftrightarrow> toLowerCase_char c = CHR ''m''"
  "ascii_upper c = ascii_upper CHR ''G'' \<longleftrightarrow> toLowerCase_char c = CHR ''g''"
  "ascii_upper c = ascii_upper CHR ''K'' \<longleftrightarrow> toLowerCase_char c = CHR ''k''"
  "ascii_upper c = ascii_upper CHR ''b'' \<longleftrightarrow> toLowerCase_char c = CHR ''b''"
  "ascii_upper c = ascii_upper CHR ''p'' \<longleftrightarrow> toLowerCase_char c = CHR ''p''"
  "ascii_upper c = ascii_upper CHR ''s'' \<longleftrightarrow> toLowerCase_char c = CHR ''s''"
  unfolding letter_tables by (simp_all split: if_splits)

lemma unit_fold:
  "map ascii_upper u = map ascii_upper ''Mbps'' \<longleftrightarrow> toLowerCase u = ''mbps''"
  "map ascii_upper u = map ascii_upper ''Gbps'' \<longleftrightarrow> toLowerCase u = ''gbps''"
  "map ascii_upper u = map ascii_upper ''Kbps'' \<longleftrightarrow> toLowerCase u = ''kbps''"
  by (auto simp: toLowerCase_def map_eq_Cons_conv fold_letter)

lemma bandwidthRegex_iff:
  "re_test bandwidthRegex v \<longleftrightarrow>
     (\<exists>ds ws u. v = ds @ ws @ u \<and> ds \<noteq> [] \<and> list_all is_digit ds \<and> list_all is_space ws
        \<and> toLowerCase u \<in> {''kbps'', ''mbps'', ''gbps''})"
proof -
  let ?U = "Alt (Alt (lit_i ''Mbps'') (lit_i ''Gbps'')) (lit_i ''Kbps'')"
  have unit: "u \<in> denote ?U \<longleftrightarrow> toLowerCase u \<in> {''kbps'', ''mbps'', ''gbps''}" for u
    unfolding denote.simps(4) Un_iff denote_lit_i unit_fold by blast
  have "re_test bandwidthRegex v \<longleftrightarrow>
      v \<in> conc (denote (plus (Class is_digit))) (conc (denote (Star (Class is_space))) (denote ?U))"
    by (simp add: re_test_iff bandwidthRegex_def)
  also have "\<dots> \<longleftrightarrow> (\<exists>ds r. v = ds @ r \<and> ds \<in> denote (plus (Class is_digit))
      \<and> (\<exists>ws u. r = ws @ u \<and> ws \<in> denote (Star (Class is_space)) \<and> u \<in> denote ?U))"
    unfolding conc_iff ..
  also have "\<dots> \<longleftrightarrow> (\<exists>ds ws u. v = ds @ ws @ u \<and> ds \<noteq> [] \<and> list_all is_digit ds \<and> list_all is_space ws
        \<and> toLowerCase u \<in> {''kbps'', ''mbps'', ''gbps''})"
    unfolding denote_plus_class denote_star_class unit by blast
  finally show ?thesis .
qed

lemma bandwidth_registration:
  "ClientRegistration_validateField ''bandwidth'' v = '''' \<longleftrightarrow> re_test bandwidthRegex v"
  by (simp add: ClientRegistration_validateField_def)

lemma bandwidth_same:
  "CircuitDetails_validateField ''bandwidth'' v = ClientRegistration_validateField ''bandwidth'' v"
  by (simp add: ClientRegistration_validateField_def CircuitDetails_validateField_def)

text \<open>
  Claim C4. Both validators accept a bandwidth exactly when it is one or more digits,
  then any number of whitespace characters, then a unit that is \<open>kbps\<close>, \<open>mbps\<close> or
  \<open>gbps\<close> once put in lower case. \<open>100 Mbps\<close>, \<open>1Gbps\<close> and \<open>50 kbps\<close> are
  accepted, \<open>100\<close> and \<open>100 Mbs\<close> are refused.
\<close>

theorem bandwidth_accepted_exactly:
  "(ClientRegistration_validateField ''bandwidth'' v = '''' \<longleftrightarrow>
      (\<exists>ds ws u. v = ds @ ws @ u \<and> ds \<noteq> [] \<and> list_all is_digit ds \<and> list_all is_space ws
         \<and> toLowerCase u \<in> {''kbps'', ''mbps'', ''gbps''}))
   \<and> CircuitDetails_validateField ''bandwidth'' v = ClientRegistration_validateField ''bandwidth'' v
   \<and> ClientRegistration_validateField ''bandwidth'' ''100 Mbps'' = ''''
   \<and> ClientRegistration_validateField ''bandwidth'' ''1Gbps'' = ''''
   \<and> ClientRegistration_validateField ''bandwidth'' ''50 kbps'' = ''''
   \<and> ClientRegistration_validateField ''bandwidth'' ''100'' \<noteq> ''''
   \<and> ClientRegistration_validateField ''bandwidth'' ''100 Mbs'' \<noteq> ''''"
proof (intro conjI)
  show "ClientRegistration_validateField ''bandwidth'' v = '''' \<longleftrightarrow>
      (\<exists>ds ws u. v = ds @ ws @ u \<and> ds \<noteq> [] \<and> list_all is_digit ds \<and> list_all is_space ws
         \<and> toLowerCase u \<in> {''kbps'', ''mbps'', ''gbps''})"
    unfolding bandwidth_registration by (rule bandwidthRegex_iff)
  show "CircuitDetails_validateField ''bandwidth'' v = ClientRegistration_validateField ''bandwidth'' v"
    by (rule bandwidth_same)
  show "ClientRegistration_validateField ''bandwidth'' ''100 Mbps'' = ''''" by code_simp
  show "ClientRegistration_validateField ''bandwidth'' ''1Gbps'' = ''''" by code_simp
  show "ClientRegistration_validateField ''bandwidth'' ''50 kbps'' = ''''" by code_simp
  show "ClientRegistration_validateField ''bandwidth'' ''100'' \<noteq> ''''" by code_simp
  show "ClientRegistration_validateField ''bandwidth'' ''100 Mbs'' \<noteq> ''''" by code_simp
qed

theorem bandwidth_accepted_exactly_witness:
  "CircuitDetails_validateField ''bandwidth'' ''500 MBPS'' = ''''
   \<and> (\<exists>ds ws u. ''500 MBPS'' = ds @ ws @ u \<and> ds \<noteq> [] \<and> list_all is_digit ds \<and> list_all is_space ws
         \<and> toLowerCase u \<in> {''kbps'', ''mbps'', ''gbps''})"
proof -
  have ok: "CircuitDetails_validateField ''bandwidth'' ''500 MBPS'' = ''''" by code_simp
  note t = bandwidth_accepted_exactly[of "''500 MBPS''"]
  from t have same: "CircuitDetails_validateField ''bandwidth'' ''500 MBPS''
      = ClientRegistration_validateField ''bandwidth'' ''500 MBPS''" by (elim conjE)
  from t have "ClientRegistration_validateField ''bandwidth'' ''500 MBPS'' = '''' \<longleftrightarrow>
      (\<exists>ds ws u. ''500 MBPS'' = ds @ ws @ u \<and> ds \<noteq> [] \<and> list_all is_digit ds \<and> list_all is_space ws
         \<and> toLowerCase u \<in> {''kbps'', ''mbps'', ''gbps''})" by (elim conjE)
  with ok same show ?thesis by metis
qed

section \<open>VLAN\<close>

lemma vlan_same:
  "CircuitDetails_validateField ''vlan'' v = ClientRegistration_validateField ''vlan'' v"
  by (simp add: ClientRegistration_validateField_def CircuitDetails_validateField_def)

lemma vlan_registration:
  "ClientRegistration_validateField ''vlan'' v = '''' \<longleftrightarrow> \<not> vlan_out_of_range v"
  by (simp add: ClientRegistration_validateField_def)

lemma vlan_in_range:
  "\<not> vlan_out_of_range v \<longleftrightarrow> (\<exists>n. parseInt v = Some n \<and> 1 \<le> n \<and> n \<le> 4094)"
  by (auto simp: vlan_out_of_range_def split: option.split)

text \<open>
  Claim C3, as stated, fails: \<open>12abc\<close> is not a numeral, and both validators accept it as
  a VLAN, since \<open>parseInt\<close> reads the leading digits and ignores the rest.
\<close>

theorem vlan_accepted_counterexample:
  "\<not> numeric_string ''12abc''
   \<and> ClientRegistration_validateField ''vlan'' ''12abc'' = ''''
   \<and> CircuitDetails_validateField ''vlan'' ''12abc'' = ''''"
  by code_simp

text \<open>
  Claim C3, amended. Both validators accept a VLAN exactly when \<open>parseInt\<close> of the string
  (leading whitespace skipped, an optional sign, then the longest run of leading digits,
  hexadecimal after \<open>0x\<close>, whatever follows ignored) is an integer from 1 to 4094. For a
  string of decimal digits this is exactly when its value is from 1 to 4094. A string on
  which \<open>parseInt\<close> gives \<open>NaN\<close> is refused, and so are \<open>0\<close> and \<open>4095\<close>.
\<close>

theorem vlan_accepted_by_parseInt:
  "(ClientRegistration_validateField ''vlan'' v = '''' \<longleftrightarrow>
      (\<exists>n. parseInt v = Some n \<and> 1 \<le> n \<and> n \<le> 4094))
   \<and> CircuitDetails_validateField ''vlan'' v = ClientRegistration_validateField ''vlan'' v
   \<and> (ds \<noteq> [] \<and> list_all is_digit ds \<longrightarrow>
        (ClientRegistration_validateField ''vlan'' ds = '''' \<longleftrightarrow>
           1 \<le> to_number 10 ds \<and> to_number 10 ds \<le> 4094))
   \<and> (parseInt v = None \<longrightarrow>
        ClientRegistration_validateField ''vlan'' v = ''VLAN must be between 1-4094'')
   \<and> ClientRegistration_validateField ''vlan'' ''0'' = ''VLAN must be between 1-4094''
   \<and> ClientRegistration_validateField ''vlan'' ''4095'' = ''VLAN must be between 1-4094''"
proof (intro conjI impI)
  show "ClientRegistration_validateField ''vlan'' v = '''' \<longleftrightarrow>
      (\<exists>n. parseInt v = Some n \<and> 1 \<le> n \<and> n \<le> 4094)"
    unfolding vlan_registration by (rule vlan_in_range)
  show "CircuitDetails_validateField ''vlan'' v = ClientRegistration_validateField ''vlan'' v"
    by (rule vlan_same)
  show "ClientRegistration_validateField ''vlan'' ds = '''' \<longleftrightarrow>
           1 \<le> to_number 10 ds \<and> to_number 10 ds \<le> 4094"
    if "ds \<noteq> [] \<and> list_all is_digit ds"
    using that unfolding vlan_registration vlan_in_range by (auto simp: parseInt_digits)
  show "ClientRegistration_validateField ''vlan'' v = ''VLAN must be between 1-4094''"
    if "parseInt v = None"
    using that by (simp add: ClientRegistration_validateField_def vlan_out_of_range_def)
  show "ClientRegistration_validateField ''vlan'' ''0'' = ''VLAN must be between 1-4094''"
    by code_simp
  show "ClientRegistration_validateField ''vlan'' ''4095'' = ''VLAN must be between 1-4094''"
    by code_simp
qed

theorem vlan_accepted_by_parseInt_witness:
  "ClientRegistration_validateField ''vlan'' ''4094'' = ''''
   \<and> ClientRegistration_validateField ''vlan'' ''VLAN7'' = ''VLAN must be between 1-4094''
   \<and> parseInt ''VLAN7'' = None \<and> to_number 10 ''4094'' = 4094"
proof -
  have n: "parseInt ''VLAN7'' = None" by code_simp
  have d: "''4094'' \<noteq> [] \<and> list_all is_digit ''4094''" by code_simp
  have v: "to_number 10 ''4094'' = 4094" by code_simp
  from vlan_accepted_by_parseInt[of "''VLAN7''" "''4094''"] n d v show ?thesis by simp
qed

section \<open>Lookup\<close>

lemma mock_ids_lower:
  "map (\<lambda>c. toLowerCase (circuit_id c)) mockCircuits = [''ckt-001-nyc'', ''ckt-002-lax'', ''ckt-003-chi'']"
  by code_simp

lemma space_lower:
  assumes "is_space c"
  shows "toLowerCase_char c = c"
proof -
  from assms consider "c = CHR 0x09" | "c = CHR 0x0A" | "c = CHR 0x0B" | "c = CHR 0x0C"
    | "c = CHR 0x0D" | "c = CHR 0x20" | "c = CHR 0xA0"
    by (auto simp: is_space_def)
  then show ?thesis
    by cases (simp_all add: letter_tables)
qed

lemma lower_hd: "q \<noteq> [] \<Longrightarrow> hd (toLowerCase q) = toLowerCase_char (hd q)"
  by (cases q) (simp_all add: toLowerCase_def)

lemma lower_last: "q \<noteq> [] \<Longrightarrow> last (toLowerCase q) = toLowerCase_char (last q)"
  by (simp add: toLowerCase_def last_map)

lemma trim_Nil: "trim [] = []"
  by (simp add: trim_def)

lemma find_unique:
  "distinct (map f xs) \<Longrightarrow> c \<in> set xs \<Longrightarrow> find (\<lambda>x. f x = f c) xs = Some c"
  by (induction xs) (auto simp: image_iff)

lemma not_a_key: "k \<notin> set (map f xs) \<Longrightarrow> \<forall>x \<in> set xs. f x \<noteq> k"
  by auto

lemma mock_ids_distinct: "distinct (map (\<lambda>c. toLowerCase (circuit_id c)) mockCircuits)"
  unfolding mock_ids_lower by simp

text \<open>
  Claim C5. For a query that is not blank, a record of the demo list whose identifier
  equals the query once both are put in lower case is the record handed to
  \<open>onCircuitSelect\<close>; when no record of the list is such, the error is the not-found
  message, which quotes the query.
\<close>

theorem lookup_by_identifier:
  assumes "trim q \<noteq> []"
  shows "(\<forall>c \<in> set mockCircuits.
            toLowerCase (circuit_id c) = toLowerCase q \<longrightarrow> handleSearch q = Selected c)
       \<and> ((\<forall>c \<in> set mockCircuits. toLowerCase (circuit_id c) \<noteq> toLowerCase q) \<longrightarrow>
            handleSearch q =
              Error (''Circuit ID '' @ [CHR 0x22] @ q @ [CHR 0x22] @ '' not found in the system''))"
proof (intro conjI ballI impI)
  fix c
  assume c: "c \<in> set mockCircuits" and eq: "toLowerCase (circuit_id c) = toLowerCase q"
  from find_unique[OF mock_ids_distinct c]
  have "find (\<lambda>x. toLowerCase (circuit_id x) = toLowerCase q) mockCircuits = Some c"
    by (simp add: eq)
  with assms show "handleSearch q = Selected c"
    by (simp add: handleSearch_def)
next
  assume "\<forall>c \<in> set mockCircuits. toLowerCase (circuit_id c) \<noteq> toLowerCase q"
  then have "find (\<lambda>x. toLowerCase (circuit_id x) = toLowerCase q) mockCircuits = None"
    by (simp add: find_None_iff)
  with assms show "handleSearch q =
      Error (''Circuit ID '' @ [CHR 0x22] @ q @ [CHR 0x22] @ '' not found in the system'')"
    by (simp add: handleSearch_def not_found_def)
qed

theorem lookup_by_identifier_witness:
  "handleSearch ''ckt-002-lax'' = Selected (mockCircuits ! 1)
   \<and> handleSearch ''CKT-004-SEA'' =
       Error (''Circuit ID '' @ [CHR 0x22] @ ''CKT-004-SEA'' @ [CHR 0x22] @ '' not found in the system'')"
proof -
  have t1: "trim ''ckt-002-lax'' \<noteq> []" by code_simp
  have t2: "trim ''CKT-004-SEA'' \<noteq> []" by code_simp
  have m: "mockCircuits ! 1 \<in> set mockCircuits" by (simp add: mockCircuits_def)
  have l: "toLowerCase (circuit_id (mockCircuits ! 1)) = toLowerCase ''ckt-002-lax''" by code_simp
  have "toLowerCase ''CKT-004-SEA'' \<notin> set (map (\<lambda>c. toLowerCase (circuit_id c)) mockCircuits)"
    unfolding mock_ids_lower by code_simp
  then have n: "\<forall>c \<in> set mockCircuits. toLowerCase (circuit_id c) \<noteq> toLowerCase ''CKT-004-SEA''"
    by (rule not_a_key)
  from lookup_by_identifier[OF t1] m l lookup_by_identifier[OF t2] n show ?thesis by blast
qed

text \<open>
  Claim C10. The comparison uses the query as typed: a query that is not blank and starts
  or ends with a whitespace character gets the not-found message, quoting the query with
  its whitespace. The witness is the query \<open>CKT-001-NYC\<close> between two spaces, whose trimmed
  form is the identifier of the first demo record and is found.
\<close>

theorem lookup_untrimmed:
  assumes "trim q \<noteq> []" and "is_space (hd q) \<or> is_space (last q)"
  shows "handleSearch q =
           Error (''Circuit ID '' @ [CHR 0x22] @ q @ [CHR 0x22] @ '' not found in the system'')"
proof -
  from assms(1) have ne: "q \<noteq> []" using trim_Nil by auto
  have no: "toLowerCase q \<noteq> L"
    if "\<not> is_space (hd L)" "\<not> is_space (last L)" for L
  proof
    assume eq: "toLowerCase q = L"
    from assms(2) show False
    proof
      assume s: "is_space (hd q)"
      from lower_hd[OF ne] space_lower[OF s] eq have "hd L = hd q" by simp
      with s that show False by simp
    next
      assume s: "is_space (last q)"
      from lower_last[OF ne] space_lower[OF s] eq have "last L = last q" by simp
      with s that show False by simp
    qed
  qed
  have "toLowerCase q \<noteq> ''ckt-001-nyc''" "toLowerCase q \<noteq> ''ckt-002-lax''"
    "toLowerCase q \<noteq> ''ckt-003-chi''"
    by (rule no; simp add: is_space_def)+
  then have "toLowerCase q \<notin> set (map (\<lambda>c. toLowerCase (circuit_id c)) mockCircuits)"
    unfolding mock_ids_lower by simp
  then have "\<forall>c \<in> set mockCircuits. toLowerCase (circuit_id c) \<noteq> toLowerCase q"
    by (rule not_a_key)
  then have "find (\<lambda>c. toLowerCase (circuit_id c) = toLowerCase q) mockCircuits = None"
    by (simp add: find_None_iff)
  with assms(1) show ?thesis by (simp add: handleSearch_def not_found_def)
qed

theorem lookup_untrimmed_witness:
  "trim '' CKT-001-NYC '' = circuit_id (mockCircuits ! 0)
   \<and> handleSearch (trim '' CKT-001-NYC '') = Selected (mockCircuits ! 0)
   \<and> handleSearch '' CKT-001-NYC '' =
       Error (''Circuit ID '' @ [CHR 0x22] @ '' CKT-001-NYC '' @ [CHR 0x22] @ '' not found in the system'')"
proof -
  have t: "trim '' CKT-001-NYC '' \<noteq> []" by code_simp
  have s: "is_space (hd '' CKT-001-NYC '') \<or> is_space (last '' CKT-001-NYC '')" by code_simp
  have a: "trim '' CKT-001-NYC '' = circuit_id (mockCircuits ! 0)" by code_simp
  have b: "handleSearch (trim '' CKT-001-NYC '') = Selected (mockCircuits ! 0)" by code_simp
  from lookup_untrimmed[OF t s] a b show ?thesis by simp
qed

section \<open>Collecting the errors of a form\<close>

lemma in_update_D:
  "(a, b) \<in> set (AList.update k v al) \<Longrightarrow> (a, b) = (k, v) \<or> (a, b) \<in> set al"
  by (induction al) (auto split: if_splits)

lemma submit_entry_distinct:
  "distinct (map fst acc) \<Longrightarrow> distinct (map fst (submit_entry acc e))"
  by (cases e) (simp add: submit_entry_def Let_def distinct_update)

lemma foldl_submit_distinct:
  "distinct (map fst acc) \<Longrightarrow> distinct (map fst (foldl submit_entry acc es))"
  by (induction es arbitrary: acc) (simp_all add: submit_entry_distinct)

lemma save_entry_distinct:
  "distinct (map fst acc) \<Longrightarrow> distinct (map fst (save_entry ec acc field))"
  by (simp add: save_entry_def Let_def distinct_update)

lemma foldl_save_distinct:
  "distinct (map fst acc) \<Longrightarrow> distinct (map fst (foldl (save_entry ec) acc fs))"
  by (induction fs arbitrary: acc) (simp_all add: save_entry_distinct)

lemma required_message_not_Nil: "required_message field \<noteq> []"
  by (simp add: required_message_def)

lemma submit_entry_sound:
  assumes "(f, m) \<in> set (submit_entry acc (field, v))"
  shows "(f, m) \<in> set acc \<or> (f = field \<and> m = submit_message field v \<and> m \<noteq> [])"
  using assms
  by (auto simp: submit_entry_def submit_message_def Let_def required_message_not_Nil
      split: if_splits dest!: in_update_D)

lemma foldl_submit_sound:
  "(f, m) \<in> set (foldl submit_entry acc es) \<Longrightarrow>
     (f, m) \<in> set acc \<or> (\<exists>v. (f, v) \<in> set es \<and> m = submit_message f v \<and> m \<noteq> [])"
proof (induction es arbitrary: acc)
  case Nil
  then show ?case by simp
next
  case (Cons e es)
  obtain field v where e: "e = (field, v)" by (cases e)
  from Cons.prems have "(f, m) \<in> set (foldl submit_entry (submit_entry acc (field, v)) es)"
    by (simp add: e)
  from Cons.IH[OF this] show ?case
    using submit_entry_sound[of f m acc field v] by (auto simp: e)
qed

lemma save_entry_sound:
  assumes "(f, m) \<in> set (save_entry ec acc field)"
  shows "(f, m) \<in> set acc \<or> (f = key_name field
           \<and> m = CircuitDetails_validateField (key_name field) (get_field field ec) \<and> m \<noteq> [])"
  using assms
  by (auto simp: save_entry_def Let_def split: if_splits dest!: in_update_D)

lemma foldl_save_sound:
  "(f, m) \<in> set (foldl (save_entry ec) acc fs) \<Longrightarrow>
     (f, m) \<in> set acc \<or> (\<exists>field \<in> set fs. f = key_name field
           \<and> m = CircuitDetails_validateField (key_name field) (get_field field ec) \<and> m \<noteq> [])"
proof (induction fs arbitrary: acc)
  case Nil
  then show ?case by simp
next
  case (Cons field fs)
  from Cons.prems have "(f, m) \<in> set (foldl (save_entry ec) (save_entry ec acc field) fs)"
    by simp
  from Cons.IH[OF this] show ?case
    using save_entry_sound[of f m ec acc field] by auto
qed

text \<open>
  Claim C8. The error object built by a submit or a save has at most one entry for a
  field, and each entry is the message of a field that failed its check. When the object
  is not empty, \<open>handleSubmit\<close> and \<open>handleSave\<close> only store it in \<open>errors\<close>: no callback
  is scheduled, so no record is built or passed on, \<open>loading\<close> and \<open>success\<close> keep their
  values, and a click on \<open>Save Changes\<close> changes nothing but \<open>errors\<close>.
\<close>

theorem invalid_form_aborts:
  "distinct (map fst (submit_errors fd))
   \<and> (\<forall>(field, message) \<in> set (submit_errors fd).
        message \<noteq> [] \<and> (\<exists>v. (field, v) \<in> set (entries fd) \<and>
          message = (if trim v = [] then required_message field
                     else ClientRegistration_validateField field v)))
   \<and> (submit_errors (formData st) \<noteq> [] \<longrightarrow>
        handleSubmit st = (st\<lparr>errors := submit_errors (formData st)\<rparr>, None))
   \<and> distinct (map fst (save_errors ec))
   \<and> (\<forall>(name, message) \<in> set (save_errors ec).
        message \<noteq> [] \<and> (\<exists>field \<in> set editableFields. name = key_name field \<and>
          message = CircuitDetails_validateField name (get_field field ec)))
   \<and> (editedCircuit d = Some ec \<and> save_errors ec \<noteq> [] \<longrightarrow>
        handleSave d = (d\<lparr>errors := save_errors ec\<rparr>, None))
   \<and> (isEditing (view s) \<and> \<not> loading (view s) \<and> editedCircuit (view s) = Some ec
        \<and> save_errors ec \<noteq> [] \<longrightarrow>
        step s Click_save = s\<lparr>view := (view s)\<lparr>errors := save_errors ec\<rparr>\<rparr>)"
proof (intro conjI impI)
  show "distinct (map fst (submit_errors fd))"
    unfolding submit_errors_def by (rule foldl_submit_distinct) simp
  show "\<forall>(field, message) \<in> set (submit_errors fd).
        message \<noteq> [] \<and> (\<exists>v. (field, v) \<in> set (entries fd) \<and>
          message = (if trim v = [] then required_message field
                     else ClientRegistration_validateField field v))"
    unfolding submit_errors_def
    using foldl_submit_sound[of _ _ "[]" "entries fd"]
    by (fastforce simp: submit_message_def)
  show "handleSubmit st = (st\<lparr>errors := submit_errors (formData st)\<rparr>, None)"
    if "submit_errors (formData st) \<noteq> []"
    using that by (simp add: handleSubmit_def Let_def)
  show "distinct (map fst (save_errors ec))"
    unfolding save_errors_def by (rule foldl_save_distinct) simp
  show "\<forall>(name, message) \<in> set (save_errors ec).
        message \<noteq> [] \<and> (\<exists>field \<in> set editableFields. name = key_name field \<and>
          message = CircuitDetails_validateField name (get_field field ec))"
    unfolding save_errors_def
    using foldl_save_sound[of _ _ ec "[]" editableFields]
    by fastforce
  show "handleSave d = (d\<lparr>errors := save_errors ec\<rparr>, None)"
    if "editedCircuit d = Some ec \<and> save_errors ec \<noteq> []"
    using that by (simp add: handleSave_def Let_def)
  show "step s Click_save = s\<lparr>view := (view s)\<lparr>errors := save_errors ec\<rparr>\<rparr>"
    if "isEditing (view s) \<and> \<not> loading (view s) \<and> editedCircuit (view s) = Some ec
        \<and> save_errors ec \<noteq> []"
    using that by (simp add: handleSave_def Let_def)
qed

theorem invalid_form_aborts_witness:
  "handleSubmit
     \<lparr>loading = False, success = False, errors = [],
      formData = \<lparr>circuit_id = ''CKT-009-SEA'', client_name = ''Acme'', client_ip = ''10.0.0.1'',
        subnet = ''255.255.255.0'', dns = ''8.8.8.8'', vlan = ''4095'', bandwidth = ''1 Gbps'',
        location = ''Seattle'', mux_id = ''MUX-SEA-01'', port_id = ''Port-01''\<rparr>\<rparr>
   = (\<lparr>loading = False, success = False, errors = [(''vlan'', ''VLAN must be between 1-4094'')],
      formData = \<lparr>circuit_id = ''CKT-009-SEA'', client_name = ''Acme'', client_ip = ''10.0.0.1'',
        subnet = ''255.255.255.0'', dns = ''8.8.8.8'', vlan = ''4095'', bandwidth = ''1 Gbps'',
        location = ''Seattle'', mux_id = ''MUX-SEA-01'', port_id = ''Port-01''\<rparr>\<rparr>, None)
   \<and> step (run (start (mockCircuits ! 0)) [Click_edit, Type_into Vlan ''0'']) Click_save
     = (run (start (mockCircuits ! 0)) [Click_edit, Type_into Vlan ''0''])
         \<lparr>view := (view (run (start (mockCircuits ! 0)) [Click_edit, Type_into Vlan ''0'']))
            \<lparr>errors := [(''vlan'', ''VLAN must be between 1-4094'')]\<rparr>\<rparr>"
proof -
  let ?fd = "\<lparr>circuit_id = ''CKT-009-SEA'', client_name = ''Acme'', client_ip = ''10.0.0.1'',
        subnet = ''255.255.255.0'', dns = ''8.8.8.8'', vlan = ''4095'', bandwidth = ''1 Gbps'',
        location = ''Seattle'', mux_id = ''MUX-SEA-01'', port_id = ''Port-01''\<rparr>"
  let ?st = "\<lparr>loading = False, success = False, errors = [], formData = ?fd\<rparr>"
  let ?s = "run (start (mockCircuits ! 0)) [Click_edit, Type_into Vlan ''0'']"
  let ?ec = "(mockCircuits ! 0)\<lparr>vlan := ''0''\<rparr>"
  have se: "submit_errors ?fd = [(''vlan'', ''VLAN must be between 1-4094'')]" by code_simp
  have ve: "save_errors ?ec = [(''vlan'', ''VLAN must be between 1-4094'')]" by code_simp
  have ed: "isEditing (view ?s)" "\<not> loading (view ?s)" "editedCircuit (view ?s) = Some ?ec"
    by code_simp+
  note t = invalid_form_aborts[of ?fd ?st ?ec "view ?s" ?s]
  from t se have a: "handleSubmit ?st = (?st\<lparr>errors := submit_errors ?fd\<rparr>, None)" by simp
  from t ve ed have b: "step ?s Click_save = ?s\<lparr>view := (view ?s)\<lparr>errors := save_errors ?ec\<rparr>\<rparr>"
    by simp
  from a b show ?thesis unfolding se ve by simp
qed

lemma foldl_submit_other:
  "f \<notin> fst ` set es \<Longrightarrow> map_of (foldl submit_entry acc es) f = map_of acc f"
proof (induction es arbitrary: acc)
  case Nil
  show ?case by simp
next
  case (Cons e es)
  obtain field v where e: "e = (field, v)" by (cases e)
  from Cons.prems have ne: "f \<noteq> field" and rest: "f \<notin> fst ` set es" by (auto simp: e)
  have "map_of (submit_entry acc (field, v)) f = map_of acc f"
    using ne by (simp add: submit_entry_def Let_def update_conv')
  with Cons.IH[OF rest, of "submit_entry acc (field, v)"] show ?case by (simp add: e)
qed

lemma foldl_submit_blank:
  assumes "distinct (map fst es)" and "(f, v) \<in> set es" and "trim v = []"
  shows "map_of (foldl submit_entry acc es) f = Some (required_message f)"
  using assms
proof (induction es arbitrary: acc)
  case Nil
  then show ?case by simp
next
  case (Cons e es)
  show ?case
  proof (cases "e = (f, v)")
    case True
    from Cons.prems(1) True have "f \<notin> fst ` set es" by auto
    moreover have "map_of (submit_entry acc (f, v)) f = Some (required_message f)"
      using Cons.prems(3) by (simp add: submit_entry_def update_conv')
    ultimately have "map_of (foldl submit_entry (submit_entry acc (f, v)) es) f
        = Some (required_message f)"
      by (simp add: foldl_submit_other)
    then show ?thesis by (simp add: True)
  next
    case False
    with Cons.prems have "distinct (map fst es)" "(f, v) \<in> set es" by auto
    from Cons.IH[OF this Cons.prems(3)] show ?thesis by simp
  qed
qed

lemma entries_keys:
  "map fst (entries fd) = [''circuit_id'', ''client_name'', ''client_ip'', ''subnet'', ''dns'',
     ''vlan'', ''bandwidth'', ''location'', ''mux_id'', ''port_id'']"
  by (simp add: entries_def)

lemma entries_distinct: "distinct (map fst (entries fd))"
  unfolding entries_keys by simp

lemma required_as_specified:
  "\<forall>field \<in> set [''circuit_id'', ''client_name'', ''client_ip'', ''subnet'', ''dns'',
     ''vlan'', ''bandwidth'', ''location'', ''mux_id'', ''port_id''].
     required_message field = spec_field_name field @ '' is required''"
  by code_simp

lemma required_values:
  "map required_message [''circuit_id'', ''client_name'', ''client_ip'', ''subnet'', ''dns'',
     ''vlan'', ''bandwidth'', ''location'', ''mux_id'', ''port_id'']
   = [''Circuit Id is required'', ''Client Name is required'', ''Client Ip is required'',
      ''Subnet is required'', ''Dns is required'', ''Vlan is required'',
      ''Bandwidth is required'', ''Location is required'', ''Mux Id is required'',
      ''Port Id is required'']"
  by code_simp

lemma required_each:
  "required_message ''circuit_id'' = ''Circuit Id is required''"
  "required_message ''client_name'' = ''Client Name is required''"
  "required_message ''client_ip'' = ''Client Ip is required''"
  "required_message ''subnet'' = ''Subnet is required''"
  "required_message ''dns'' = ''Dns is required''"
  "required_message ''vlan'' = ''Vlan is required''"
  "required_message ''bandwidth'' = ''Bandwidth is required''"
  "required_message ''location'' = ''Location is required''"
  "required_message ''mux_id'' = ''Mux Id is required''"
  "required_message ''port_id'' = ''Port Id is required''"
  using required_values by simp_all

lemma required_not_validator:
  "\<forall>field \<in> set [''circuit_id'', ''client_name'', ''client_ip'', ''subnet'', ''dns'',
     ''vlan'', ''bandwidth'', ''location'', ''mux_id'', ''port_id''].
     ClientRegistration_validateField field v \<noteq> required_message field"
  by (simp add: required_each ClientRegistration_validateField_def)

lemma trim_blank: "trim v = [] \<longleftrightarrow> list_all is_space v"
proof
  assume "trim v = []"
  then have all: "\<forall>x \<in> set (dropWhile is_space v). is_space x"
    by (simp add: trim_def)
  have "dropWhile is_space v = []"
  proof (rule ccontr)
    assume ne: "dropWhile is_space v \<noteq> []"
    then have "\<not> is_space (hd (dropWhile is_space v))" by (rule hd_dropWhile)
    moreover from ne have "hd (dropWhile is_space v) \<in> set (dropWhile is_space v)"
      by (rule hd_in_set)
    ultimately show False using all by blast
  qed
  then show "list_all is_space v"
    by (simp add: list_all_iff)
next
  assume "list_all is_space v"
  then show "trim v = []"
    by (auto simp: trim_def list_all_iff dest: set_dropWhileD)
qed

text \<open>
  Claim C9. On a submit of the registration form, a field whose value is empty or made of
  whitespace characters only gets the message made of its key, underscores turned into
  spaces and every word capitalised, followed by \<open>is required\<close>; this is never the message
  of the validator for that field, which is not consulted. For \<open>circuit_id\<close> the message is
  \<open>Circuit Id is required\<close>.
\<close>

theorem blank_field_required:
  assumes "(field, v) \<in> set (entries fd)" and "list_all is_space v"
  shows "map_of (submit_errors fd) field = Some (spec_field_name field @ '' is required'')
       \<and> ClientRegistration_validateField field v \<noteq> spec_field_name field @ '' is required''
       \<and> spec_field_name ''circuit_id'' @ '' is required'' = ''Circuit Id is required''"
proof -
  from assms(2) have blank: "trim v = []" by (simp add: trim_blank)
  from assms(1) have "field \<in> set (map fst (entries fd))" by force
  then have known: "field \<in> set [''circuit_id'', ''client_name'', ''client_ip'', ''subnet'', ''dns'',
     ''vlan'', ''bandwidth'', ''location'', ''mux_id'', ''port_id'']"
    unfolding entries_keys .
  with required_as_specified
  have spec: "required_message field = spec_field_name field @ '' is required''" by blast
  have "map_of (submit_errors fd) field = Some (required_message field)"
    unfolding submit_errors_def by (rule foldl_submit_blank[OF entries_distinct assms(1) blank])
  moreover have "ClientRegistration_validateField field v \<noteq> required_message field"
    using required_not_validator known by blast
  moreover have "spec_field_name ''circuit_id'' @ '' is required'' = ''Circuit Id is required''"
    by code_simp
  ultimately show ?thesis unfolding spec by simp
qed

theorem blank_field_required_witness:
  "map_of (submit_errors
      \<lparr>circuit_id = [CHR 0x20, CHR 0x09, CHR 0xA0], client_name = ''Acme'',
       client_ip = ''10.0.0.1'', subnet = ''255.255.255.0'', dns = ''8.8.8.8'', vlan = ''  '',
       bandwidth = ''1 Gbps'', location = ''Seattle'', mux_id = [], port_id = ''Port-01''\<rparr>)
     = [''circuit_id'' \<mapsto> ''Circuit Id is required'', ''vlan'' \<mapsto> ''Vlan is required'',
        ''mux_id'' \<mapsto> ''Mux Id is required'']
   \<and> ClientRegistration_validateField ''circuit_id'' [CHR 0x20, CHR 0x09, CHR 0xA0]
       = ''''
   \<and> ClientRegistration_validateField ''vlan'' ''  '' = ''VLAN must be between 1-4094''
   \<and> ClientRegistration_validateField ''mux_id'' [] = ''MUX ID must be at least 3 characters''"
proof -
  let ?ws = "[CHR 0x20, CHR 0x09, CHR 0xA0]"
  let ?fd = "\<lparr>circuit_id = ?ws, client_name = ''Acme'',
       client_ip = ''10.0.0.1'', subnet = ''255.255.255.0'', dns = ''8.8.8.8'', vlan = ''  '',
       bandwidth = ''1 Gbps'', location = ''Seattle'', mux_id = [], port_id = ''Port-01''\<rparr>"
  have e: "submit_errors ?fd = [(''circuit_id'', required_message ''circuit_id''),
      (''vlan'', required_message ''vlan''), (''mux_id'', required_message ''mux_id'')]"
    by code_simp
  have c: "(''circuit_id'', ?ws) \<in> set (entries ?fd)" by (simp add: entries_def)
  have l: "(''vlan'', ''  '') \<in> set (entries ?fd)" by (simp add: entries_def)
  have m: "(''mux_id'', []) \<in> set (entries ?fd)" by (simp add: entries_def)
  have sc: "list_all is_space ?ws" by (simp add: is_space_def)
  have sl: "list_all is_space ''  ''" by (simp add: is_space_def)
  have sm: "list_all is_space []" by simp
  have n: "spec_field_name ''circuit_id'' @ '' is required'' = ''Circuit Id is required''"
    "spec_field_name ''vlan'' @ '' is required'' = ''Vlan is required''"
    "spec_field_name ''mux_id'' @ '' is required'' = ''Mux Id is required''"
    by code_simp+
  have v: "ClientRegistration_validateField ''circuit_id'' ?ws = ''''"
    "ClientRegistration_validateField ''vlan'' ''  '' = ''VLAN must be between 1-4094''"
    "ClientRegistration_validateField ''mux_id'' [] = ''MUX ID must be at least 3 characters''"
    by code_simp+
  from blank_field_required[OF c sc] blank_field_required[OF l sl] blank_field_required[OF m sm]
  have r: "map_of (submit_errors ?fd) ''circuit_id'' = Some ''Circuit Id is required''"
    "map_of (submit_errors ?fd) ''vlan'' = Some ''Vlan is required''"
    "map_of (submit_errors ?fd) ''mux_id'' = Some ''Mux Id is required''"
    unfolding n by simp_all
  have "map_of (submit_errors ?fd) k =
      [''circuit_id'' \<mapsto> ''Circuit Id is required'', ''vlan'' \<mapsto> ''Vlan is required'',
       ''mux_id'' \<mapsto> ''Mux Id is required''] k" for k
    using r unfolding e by (auto simp: fun_upd_def)
  then have "map_of (submit_errors ?fd) =
      [''circuit_id'' \<mapsto> ''Circuit Id is required'', ''vlan'' \<mapsto> ''Vlan is required'',
       ''mux_id'' \<mapsto> ''Mux Id is required'']"
    by (rule ext)
  with v show ?thesis by simp
qed

section \<open>The records passed on\<close>

lemma keeps_id_start: "keeps_id (circuit_id c) (start c)"
  by (simp add: keeps_id_def start_def mount_def)

lemma keeps_id_step: "keeps_id i s \<Longrightarrow> keeps_id i (step s e)"
proof (cases e)
  case Click_edit
  assume "keeps_id i s"
  then show ?thesis by (simp add: Click_edit keeps_id_def handleEdit_def)
next
  case (Type_into field v)
  assume "keeps_id i s"
  then show ?thesis
    by (auto simp: Type_into keeps_id_def handleFieldChange_def set_field_keeps_id
        split: option.splits)
next
  case Click_cancel
  assume "keeps_id i s"
  then show ?thesis by (simp add: Click_cancel keeps_id_def handleCancel_def)
next
  case Click_save
  assume k: "keeps_id i s"
  obtain d' t where hs: "handleSave (view s) = (d', t)" by (cases "handleSave (view s)")
  from handleSave_cases[OF hs] k show ?thesis
    by (auto simp: Click_save keeps_id_def hs split: option.splits)
next
  case (Save_timer now)
  assume "keeps_id i s"
  then show ?thesis
    by (auto simp: Save_timer keeps_id_def save_timeout_def Let_def split: list.splits)
next
  case Success_timer
  assume "keeps_id i s"
  then show ?thesis by (simp add: Success_timer keeps_id_def)
qed

lemma keeps_id_run: "keeps_id i s \<Longrightarrow> keeps_id i (run s evs)"
  unfolding run_def by (induction evs arbitrary: s) (simp_all add: keeps_id_step)

text \<open>
  Claim C7. The callback scheduled by a successful submit was given the form data of that
  moment, and the record it passes on has these ten fields and the time read by the
  callback as \<open>last_updated\<close>. The callback scheduled by a successful save was given the
  editable copy of that moment, and the record it passes on is that copy with the time
  read by the callback as \<open>last_updated\<close>. Whatever a user does with a rendered record,
  the property \<open>circuit\<close>, the editable copy and every record passed to \<open>onUpdate\<close> carry
  the identifier of the original record.
\<close>

theorem emitted_record_fields:
  "(handleSubmit st = (st', Some fd) \<longrightarrow>
      fd = formData st
      \<and> fst (submit_timeout now fd st'') =
          \<lparr>circuit_id = circuit_id (formData st), client_name = client_name (formData st),
           client_ip = client_ip (formData st), subnet = subnet (formData st),
           dns = dns (formData st), vlan = vlan (formData st),
           bandwidth = bandwidth (formData st), location = location (formData st),
           mux_id = mux_id (formData st), port_id = port_id (formData st),
           last_updated = now\<rparr>)
   \<and> (handleSave d = (d', Some ec) \<longrightarrow>
        editedCircuit d = Some ec \<and> fst (save_timeout now ec d'') = ec\<lparr>last_updated := now\<rparr>)
   \<and> (timers s = ec # rest \<longrightarrow>
        updates (step s (Save_timer now)) = ec\<lparr>last_updated := now\<rparr> # updates s)
   \<and> circuit_id (circuit (view (run (start c) evs))) = circuit_id c
   \<and> (\<forall>e. editedCircuit (view (run (start c) evs)) = Some e \<longrightarrow> circuit_id e = circuit_id c)
   \<and> (\<forall>u \<in> set (updates (run (start c) evs)). circuit_id u = circuit_id c)"
proof -
  have k: "keeps_id (circuit_id c) (run (start c) evs)"
    by (rule keeps_id_run[OF keeps_id_start])
  have a: "handleSubmit st = (st', Some fd) \<longrightarrow>
      fd = formData st
      \<and> fst (submit_timeout now fd st'') =
          \<lparr>circuit_id = circuit_id (formData st), client_name = client_name (formData st),
           client_ip = client_ip (formData st), subnet = subnet (formData st),
           dns = dns (formData st), vlan = vlan (formData st),
           bandwidth = bandwidth (formData st), location = location (formData st),
           mux_id = mux_id (formData st), port_id = port_id (formData st),
           last_updated = now\<rparr>"
    by (auto simp: handleSubmit_def submit_timeout_def Let_def split: if_splits)
  have b: "handleSave d = (d', Some ec) \<longrightarrow>
        editedCircuit d = Some ec \<and> fst (save_timeout now ec d'') = ec\<lparr>last_updated := now\<rparr>"
    by (auto simp: save_timeout_def Let_def dest!: handleSave_cases)
  have t: "timers s = ec # rest \<longrightarrow>
        updates (step s (Save_timer now)) = ec\<lparr>last_updated := now\<rparr> # updates s"
    by (simp add: save_timeout_def Let_def)
  from k have k1: "circuit_id (circuit (view (run (start c) evs))) = circuit_id c"
    and k2: "\<forall>e. editedCircuit (view (run (start c) evs)) = Some e \<longrightarrow> circuit_id e = circuit_id c"
    and k3: "\<forall>u \<in> set (updates (run (start c) evs)). circuit_id u = circuit_id c"
    by (auto simp: keeps_id_def list_all_iff)
  from a b t k1 k2 k3 show ?thesis by blast
qed

theorem emitted_record_fields_witness:
  "handleSubmit
     \<lparr>loading = False, success = False, errors = [],
      formData = \<lparr>circuit_id = ''CKT-009-SEA'', client_name = ''Acme'', client_ip = ''10.0.0.1'',
        subnet = ''255.255.255.0'', dns = ''8.8.8.8'', vlan = ''300'', bandwidth = ''1 Gbps'',
        location = ''Seattle'', mux_id = ''MUX-SEA-01'', port_id = ''Port-01''\<rparr>\<rparr>
   = (\<lparr>loading = True, success = False, errors = [],
      formData = \<lparr>circuit_id = ''CKT-009-SEA'', client_name = ''Acme'', client_ip = ''10.0.0.1'',
        subnet = ''255.255.255.0'', dns = ''8.8.8.8'', vlan = ''300'', bandwidth = ''1 Gbps'',
        location = ''Seattle'', mux_id = ''MUX-SEA-01'', port_id = ''Port-01''\<rparr>\<rparr>,
      Some \<lparr>circuit_id = ''CKT-009-SEA'', client_name = ''Acme'', client_ip = ''10.0.0.1'',
        subnet = ''255.255.255.0'', dns = ''8.8.8.8'', vlan = ''300'', bandwidth = ''1 Gbps'',
        location = ''Seattle'', mux_id = ''MUX-SEA-01'', port_id = ''Port-01''\<rparr>)
   \<and> circuit_id (fst (submit_timeout ''6/14/2024, 11:00:00 AM''
        \<lparr>circuit_id = ''CKT-009-SEA'', client_name = ''Acme'', client_ip = ''10.0.0.1'',
         subnet = ''255.255.255.0'', dns = ''8.8.8.8'', vlan = ''300'', bandwidth = ''1 Gbps'',
         location = ''Seattle'', mux_id = ''MUX-SEA-01'', port_id = ''Port-01''\<rparr>
        \<lparr>loading = True, success = False, errors = [],
         formData = \<lparr>circuit_id = ''CKT-009-SEA'', client_name = ''Acme'', client_ip = ''10.0.0.1'',
           subnet = ''255.255.255.0'', dns = ''8.8.8.8'', vlan = ''300'', bandwidth = ''1 Gbps'',
           location = ''Seattle'', mux_id = ''MUX-SEA-01'', port_id = ''Port-01''\<rparr>\<rparr>))
     = ''CKT-009-SEA''
   \<and> updates (run (start (mockCircuits ! 0))
        [Click_edit, Type_into Vlan ''200'', Click_save, Save_timer ''6/14/2024, 11:00:00 AM''])
     = [(mockCircuits ! 0)\<lparr>vlan := ''200'', last_updated := ''6/14/2024, 11:00:00 AM''\<rparr>]
   \<and> circuit_id (hd (updates (run (start (mockCircuits ! 0))
        [Click_edit, Type_into Vlan ''200'', Click_save, Save_timer ''6/14/2024, 11:00:00 AM''])))
     = ''CKT-001-NYC''
   \<and> fst (save_timeout ''6/14/2024, 11:00:00 AM'' ((mockCircuits ! 0)\<lparr>vlan := ''200''\<rparr>)
        (view (run (start (mockCircuits ! 0)) [Click_edit, Type_into Vlan ''200''])))
     = (mockCircuits ! 0)\<lparr>vlan := ''200'', last_updated := ''6/14/2024, 11:00:00 AM''\<rparr>
   \<and> circuit_id (the (editedCircuit (view (run (start (mockCircuits ! 0))
        [Click_edit, Type_into Vlan ''200'', Click_save, Save_timer ''6/14/2024, 11:00:00 AM'']))))
     = ''CKT-001-NYC''"
proof -
  let ?fd = "\<lparr>circuit_id = ''CKT-009-SEA'', client_name = ''Acme'', client_ip = ''10.0.0.1'',
        subnet = ''255.255.255.0'', dns = ''8.8.8.8'', vlan = ''300'', bandwidth = ''1 Gbps'',
        location = ''Seattle'', mux_id = ''MUX-SEA-01'', port_id = ''Port-01''\<rparr>"
  let ?st = "\<lparr>loading = False, success = False, errors = [], formData = ?fd\<rparr>"
  let ?st' = "\<lparr>loading = True, success = False, errors = [], formData = ?fd\<rparr>"
  let ?now = "''6/14/2024, 11:00:00 AM''"
  let ?c = "mockCircuits ! 0"
  let ?ec = "?c\<lparr>vlan := ''200''\<rparr>"
  let ?s1 = "run (start ?c) [Click_edit, Type_into Vlan ''200'']"
  let ?s2 = "run (start ?c) [Click_edit, Type_into Vlan ''200'', Click_save]"
  let ?evs = "[Click_edit, Type_into Vlan ''200'', Click_save, Save_timer ?now]"
  have sub: "handleSubmit ?st = (?st', Some ?fd)" by code_simp
  have sav: "handleSave (view ?s1) = ((view ?s1)\<lparr>loading := True\<rparr>, Some ?ec)" by code_simp
  have tim: "timers ?s2 = ?ec # []" by code_simp
  have upd: "updates ?s2 = []" by code_simp
  have last: "step ?s2 (Save_timer ?now) = run (start ?c) ?evs" by (simp add: run_def)
  have ne: "updates (run (start ?c) ?evs) \<noteq> []" by code_simp
  have cid: "circuit_id ?c = ''CKT-001-NYC''" by code_simp
  note t = emitted_record_fields[of ?st ?st' ?fd ?now ?st' "view ?s1" "(view ?s1)\<lparr>loading := True\<rparr>"
      ?ec "view ?s1" ?s2 "[]" ?c ?evs]
  from t sub have r1: "circuit_id (fst (submit_timeout ?now ?fd ?st')) = ''CKT-009-SEA''"
    by simp
  from t tim upd last have r2: "updates (run (start ?c) ?evs) = [?ec\<lparr>last_updated := ?now\<rparr>]"
    by simp
  from t ne cid have r3: "circuit_id (hd (updates (run (start ?c) ?evs))) = ''CKT-001-NYC''"
    by (metis hd_in_set)
  from t sav have r4: "fst (save_timeout ?now ?ec (view ?s1)) = ?ec\<lparr>last_updated := ?now\<rparr>"
    by simp
  have "editedCircuit (view (run (start ?c) ?evs)) = Some ?ec" by code_simp
  with t cid have r5: "circuit_id (the (editedCircuit (view (run (start ?c) ?evs)))) = ''CKT-001-NYC''"
    by simp
  from sub r1 r2 r3 r4 r5 show ?thesis by simp
qed

section \<open>What a save does not check\<close>

text \<open>
  Claim C2 holds for \<open>client_name\<close>, \<open>vlan\<close>, \<open>bandwidth\<close> and the three addresses, and
  fails for \<open>location\<close>, \<open>mux_id\<close> and \<open>port_id\<close>: the \<open>switch\<close> of the edit form has no
  case for them, so its validator accepts any value, while the registration form refuses
  a value shorter than three characters. With the location of the first demo record
  changed to \<open>NY\<close>, the save schedules its callback with no error, and the record with the
  short location is passed to \<open>onUpdate\<close>.
\<close>

theorem short_location_is_saved:
  "CircuitDetails_validateField ''location'' v = ''''
   \<and> CircuitDetails_validateField ''mux_id'' v = ''''
   \<and> CircuitDetails_validateField ''port_id'' v = ''''
   \<and> ClientRegistration_validateField ''location'' ''NY'' = ''Location must be at least 3 characters''
   \<and> errors (view (run (start (mockCircuits ! 0))
        [Click_edit, Type_into Location ''NY'', Click_save])) = []
   \<and> timers (run (start (mockCircuits ! 0))
        [Click_edit, Type_into Location ''NY'', Click_save])
     = [(mockCircuits ! 0)\<lparr>location := ''NY''\<rparr>]
   \<and> updates (run (start (mockCircuits ! 0))
        [Click_edit, Type_into Location ''NY'', Click_save, Save_timer ''6/14/2024, 11:00:00 AM''])
     = [(mockCircuits ! 0)\<lparr>location := ''NY'', last_updated := ''6/14/2024, 11:00:00 AM''\<rparr>]"
proof (intro conjI)
  show "CircuitDetails_validateField ''location'' v = ''''"
    by (simp add: CircuitDetails_validateField_def)
  show "CircuitDetails_validateField ''mux_id'' v = ''''"
    by (simp add: CircuitDetails_validateField_def)
  show "CircuitDetails_validateField ''port_id'' v = ''''"
    by (simp add: CircuitDetails_validateField_def)
  show "ClientRegistration_validateField ''location'' ''NY'' = ''Location must be at least 3 characters''"
    by code_simp
  show "errors (view (run (start (mockCircuits ! 0))
        [Click_edit, Type_into Location ''NY'', Click_save])) = []"
    by code_simp
  show "timers (run (start (mockCircuits ! 0))
        [Click_edit, Type_into Location ''NY'', Click_save])
     = [(mockCircuits ! 0)\<lparr>location := ''NY''\<rparr>]"
    by code_simp
  show "updates (run (start (mockCircuits ! 0))
        [Click_edit, Type_into Location ''NY'', Click_save, Save_timer ''6/14/2024, 11:00:00 AM''])
     = [(mockCircuits ! 0)\<lparr>location := ''NY'', last_updated := ''6/14/2024, 11:00:00 AM''\<rparr>]"
    by code_simp
qed

end
